theory Spec2Isabelle
  imports Main
begin

section \<open>The chat agent of supabase/functions/chat-agent/index.ts\<close>

text \<open>
  The edge function answers one turn of a conversation: it loads the stored history,
  runs a tool-calling loop against a completion provider (\<open>runAgent\<close>), stores the
  messages the loop produced and returns the last assistant text.

  The program talks to three outside services (the completion provider, the search
  provider, the message store) and to the JavaScript runtime. Every such exchange is an
  \<open>event\<close> appended to a trace, and the answer of the outside world is a parameter of the
  model: a function of the trace so far and of the request. A thrown JavaScript value is
  the left summand of a result, so each function below returns a pair of a result and
  the trace after it.
\<close>

subsection \<open>Data\<close>

text \<open>A \<open>string\<close> stands for a JavaScript string, one \<open>char\<close> per UTF-16 code unit; the
  model covers the texts whose code units fit a \<open>char\<close>, so that \<open>take n\<close> is
  \<open>substring(0, n)\<close>.\<close>

datatype role = User | Assistant | System | Tool

text \<open>
  \<open>interface ToolCall\<close>: the nested object \<open>function: {name, arguments}\<close> is flattened,
  and the constant field \<open>type: "function"\<close> is left out.
\<close>

record ToolCall =
  call_id :: string
  fn_name :: string
  fn_arguments :: string

record Message =
  role :: role
  content :: string
  tool_calls :: "ToolCall list option"
  tool_call_id :: "string option"

text \<open>\<open>interface TavilySearchResult\<close>; the \<open>score\<close> is never read.\<close>

record TavilySearchResult =
  title :: string
  url :: string
  excerpt :: string

text \<open>What \<open>JSON.parse\<close> returns. A number is kept as its text: the program never
  computes with one.\<close>

datatype json =
    JNull
  | JBool bool
  | JNumber string
  | JString string
  | JArray "json list"
  | JObject "(string \<times> json) list"

datatype js_error =
    Error string
  | TypeError string
  | SyntaxError string
  | StoreError string

fun message_of :: "js_error \<Rightarrow> string" where
  "message_of (Error m) = m"
| "message_of (TypeError m) = m"
| "message_of (SyntaxError m) = m"
| "message_of (StoreError m) = m"

text \<open>The outcome of \<open>fetch\<close>: the promise rejects, or a response arrives with its status,
  its body as \<open>response.text()\<close> gives it and as \<open>response.json()\<close> gives it.\<close>

datatype 'a fetched =
    Rejected js_error
  | Response nat string "js_error + 'a"

definition ok :: "nat \<Rightarrow> bool" where
  "ok status = (200 \<le> status \<and> status \<le> 299)"

text \<open>\<open>data.choices[i]\<close> of a completion: \<open>message.content\<close> (possibly null),
  \<open>message.tool_calls\<close> (possibly absent) and \<open>finish_reason\<close>.\<close>

record choice =
  message_content :: "string option"
  message_tool_calls :: "ToolCall list option"
  finish_reason :: string

text \<open>The body of the request to the completion provider; model and token ceiling are
  constants of the source.\<close>

record completion_request =
  request_messages :: "Message list"
  request_tools :: bool

text \<open>A row of the \<open>messages\<close> table as the handler inserts it.\<close>

record row =
  conversation_id :: string
  row_role :: role
  row_content :: string
  row_tool_calls :: "ToolCall list option"
  row_tool_call_id :: "string option"

text \<open>The events of a trace: a call of \<open>callOpenAI\<close> with its arguments, the request it
  sends to the completion provider, a call of \<open>executeTool\<close>, the request \<open>webSearch\<close>
  sends to the search provider, and the three operations on the store.\<close>

datatype event =
    Ev_Complete "Message list" bool
  | Ev_OpenAI_Fetch completion_request
  | Ev_Tool string json
  | Ev_Tavily_Fetch "json option"
  | Ev_Insert_Conversation string
  | Ev_Insert_Message row
  | Ev_Select_History string

text \<open>
  The environment of one run: the two credentials read with \<open>Deno.env.get\<close>, the
  runtime's \<open>JSON.parse\<close>, and the answers of the outside services, each a function of
  the trace before the request and of the request. \<open>createClient\<close> is what constructing
  the store client throws, if anything; \<open>insert_conversation\<close> gives the error of the
  insert or the id of the new row, \<open>insert_message\<close> the error of the insert, if any, and
  \<open>select_history\<close> the error of the select or the rows in creation order.
\<close>

record env =
  OPENAI_API_KEY :: "string option"
  TAVILY_API_KEY :: "string option"
  JSON_parse :: "string \<Rightarrow> js_error + json"
  openai_api :: "event list \<Rightarrow> completion_request \<Rightarrow> choice list fetched"
  tavily_api :: "event list \<Rightarrow> json option \<Rightarrow> TavilySearchResult list option fetched"
  createClient :: "js_error option"
  insert_conversation :: "event list \<Rightarrow> string \<Rightarrow> js_error + string"
  insert_message :: "event list \<Rightarrow> row \<Rightarrow> js_error option"
  select_history :: "event list \<Rightarrow> string \<Rightarrow> js_error + Message list"

subsection \<open>Text helpers\<close>

text \<open>A number inside a template literal, \<open>`${n}`\<close>, for a natural number.\<close>

fun string_of_nat :: "nat \<Rightarrow> string" where
  "string_of_nat n =
     (if n < 10 then [char_of (48 + n)]
      else string_of_nat (n div 10) @ [char_of (48 + n mod 10)])"

declare string_of_nat.simps [simp del]

text \<open>\<open>Array.prototype.join\<close>.\<close>

fun join :: "string \<Rightarrow> string list \<Rightarrow> string" where
  "join sep [] = []"
| "join sep [x] = x"
| "join sep (x # y # ys) = x @ sep @ join sep (y # ys)"

text \<open>\<open>!s\<close> for a value that is a string or undefined.\<close>

fun falsy :: "string option \<Rightarrow> bool" where
  "falsy None = True"
| "falsy (Some s) = (s = [])"

subsection \<open>webSearch\<close>

definition render :: "nat \<Rightarrow> TavilySearchResult \<Rightarrow> string" where
  "render i r =
     ''['' @ string_of_nat (i + 1) @ ''] '' @ title r @ [CHR 0x0A] @ url r @ [CHR 0x0A] @ excerpt r"

definition webSearch :: "env \<Rightarrow> event list \<Rightarrow> json option \<Rightarrow> string \<times> event list" where
  "webSearch env tr query =
     (if falsy (TAVILY_API_KEY env)
      then (''Error: TAVILY_API_KEY not configured. Please add your Tavily API key to secrets.'', tr)
      else
        let tr1 = tr @ [Ev_Tavily_Fetch query] in
        (case tavily_api env tr query of
           Rejected error \<Rightarrow> (''Search error: '' @ message_of error, tr1)
         | Response status text data \<Rightarrow>
             if \<not> ok status
             then (''Search error: '' @ (''Tavily API error: '' @ string_of_nat status), tr1)
             else
               (case data of
                  Inl error \<Rightarrow> (''Search error: '' @ message_of error, tr1)
                | Inr found \<Rightarrow>
                    let results = (case found of None \<Rightarrow> [] | Some rs \<Rightarrow> rs) in
                    if length results = 0 then (''No search results found.'', tr1)
                    else (join [CHR 0x0A, CHR 0x0A]
                            (map (\<lambda>(r, i). render i r) (zip results [0 ..< length results])), tr1))))"

subsection \<open>executeTool\<close>

text \<open>\<open>args.query\<close>: reading a property of null throws; a primitive or an array has no
  such property; an object gives the value stored under the key, if any.\<close>

fun get_property :: "json \<Rightarrow> string \<Rightarrow> js_error + json option" where
  "get_property JNull k =
     Inl (TypeError (''Cannot read properties of null (reading '' @ [CHR 0x27] @ k @ [CHR 0x27] @ '')''))"
| "get_property (JObject kvs) k = Inr (map_of kvs k)"
| "get_property v k = Inr None"

definition executeTool ::
  "env \<Rightarrow> event list \<Rightarrow> string \<Rightarrow> json \<Rightarrow> (js_error + string) \<times> event list" where
  "executeTool env tr name args =
     (let tr0 = tr @ [Ev_Tool name args] in
      if name = ''web_search'' then
        (case get_property args ''query'' of
           Inl error \<Rightarrow> (Inl error, tr0)
         | Inr query \<Rightarrow> (case webSearch env tr0 query of (result, tr1) \<Rightarrow> (Inr result, tr1)))
      else (Inr (''Unknown tool: '' @ name), tr0))"

subsection \<open>callOpenAI\<close>

text \<open>The message as the request body carries it: \<open>tool_calls\<close> and \<open>tool_call_id\<close>
  are spread in only when truthy, so an empty \<open>tool_call_id\<close> is dropped (an empty
  array is truthy and stays).\<close>

definition request_message :: "Message \<Rightarrow> Message" where
  "request_message m =
     \<lparr>role = role m, content = content m, tool_calls = tool_calls m,
      tool_call_id = (if falsy (tool_call_id m) then None else tool_call_id m)\<rparr>"

definition no_key_message :: Message where
  "no_key_message =
     \<lparr>role = Assistant,
      content = ''Error: OPENAI_API_KEY not configured. Please add your OpenAI API key to secrets.'',
      tool_calls = None, tool_call_id = None\<rparr>"

definition callOpenAI ::
  "env \<Rightarrow> event list \<Rightarrow> Message list \<Rightarrow> bool \<Rightarrow> (js_error + Message \<times> string) \<times> event list" where
  "callOpenAI env tr messages includeTools =
     (let tr0 = tr @ [Ev_Complete messages includeTools] in
      if falsy (OPENAI_API_KEY env) then (Inr (no_key_message, ''stop''), tr0)
      else
        let body = \<lparr>request_messages = map request_message messages,
                    request_tools = includeTools\<rparr>;
            tr1 = tr0 @ [Ev_OpenAI_Fetch body] in
        (case openai_api env tr0 body of
           Rejected error \<Rightarrow> (Inl error, tr1)
         | Response status text data \<Rightarrow>
             if \<not> ok status
             then (Inl (Error (''OpenAI API error: '' @ string_of_nat status @ '' - '' @ text)), tr1)
             else
               (case data of
                  Inl error \<Rightarrow> (Inl error, tr1)
                | Inr choices \<Rightarrow>
                    (case choices of
                       [] \<Rightarrow> (Inl (TypeError
                         (''Cannot read properties of undefined (reading '' @ [CHR 0x27]
                            @ ''message'' @ [CHR 0x27] @ '')'')), tr1)
                     | choice # others \<Rightarrow>
                         (Inr (\<lparr>role = Assistant,
                                content = (case message_content choice of None \<Rightarrow> [] | Some c \<Rightarrow> c),
                                tool_calls = message_tool_calls choice,
                                tool_call_id = None\<rparr>,
                               finish_reason choice), tr1)))))"

subsection \<open>runAgent\<close>

definition systemMessage :: Message where
  "systemMessage =
     \<lparr>role = System,
      content =
        ''You are a helpful AI assistant with access to web search. '' @ [CHR 0x0A] @
        ''When users ask questions that require current information, use the web_search tool to find accurate, up-to-date answers.'' @ [CHR 0x0A] @
        ''Always cite your sources when providing information from search results.'' @ [CHR 0x0A] @
        ''Be concise but thorough in your responses.'',
      tool_calls = None, tool_call_id = None\<rparr>"

definition maxIterations :: nat where
  "maxIterations = 5"

text \<open>The two arrays the loop pushes to.\<close>

record transcript =
  conversationMessages :: "Message list"
  newMessages :: "Message list"

definition push :: "transcript \<Rightarrow> Message \<Rightarrow> transcript" where
  "push st m =
     \<lparr>conversationMessages = conversationMessages st @ [m], newMessages = newMessages st @ [m]\<rparr>"

definition toolMessage :: "ToolCall \<Rightarrow> string \<Rightarrow> Message" where
  "toolMessage toolCall result =
     \<lparr>role = Tool, content = result, tool_calls = None, tool_call_id = Some (call_id toolCall)\<rparr>"

text \<open>The inner \<open>for (const toolCall of message.tool_calls)\<close>: \<open>JSON.parse\<close> and
  \<open>executeTool\<close> are not inside a \<open>try\<close>, so what they throw leaves the loop.\<close>

fun run_tool_calls ::
  "env \<Rightarrow> ToolCall list \<Rightarrow> transcript \<Rightarrow> event list \<Rightarrow> (js_error + transcript) \<times> event list" where
  "run_tool_calls env [] st tr = (Inr st, tr)"
| "run_tool_calls env (toolCall # rest) st tr =
     (case JSON_parse env (fn_arguments toolCall) of
        Inl error \<Rightarrow> (Inl error, tr)
      | Inr args \<Rightarrow>
          (case executeTool env tr (fn_name toolCall) args of
             (Inl error, tr1) \<Rightarrow> (Inl error, tr1)
           | (Inr result, tr1) \<Rightarrow> run_tool_calls env rest (push st (toolMessage toolCall result)) tr1))"

text \<open>\<open>!message.tool_calls || message.tool_calls.length === 0\<close>\<close>

fun no_tool_calls :: "Message \<Rightarrow> bool" where
  "no_tool_calls m = (case tool_calls m of None \<Rightarrow> True | Some tcs \<Rightarrow> length tcs = 0)"

text \<open>The \<open>while (iterations < maxIterations)\<close> loop, entered with the current value of
  \<open>iterations\<close>. The result is the transcript when the loop is left by \<open>break\<close> or by
  its condition, and the thrown value otherwise.\<close>

function agent_loop ::
  "env \<Rightarrow> nat \<Rightarrow> transcript \<Rightarrow> event list \<Rightarrow> (js_error + transcript) \<times> event list" where
  "agent_loop env iterations st tr =
     (if iterations < maxIterations then
        (case callOpenAI env tr (conversationMessages st) True of
           (Inl error, tr1) \<Rightarrow> (Inl error, tr1)
         | (Inr (message, finishReason), tr1) \<Rightarrow>
             if no_tool_calls message
             then (Inr (st\<lparr>newMessages := newMessages st @ [message]\<rparr>), tr1)
             else
               (case run_tool_calls env (case tool_calls message of None \<Rightarrow> [] | Some tcs \<Rightarrow> tcs)
                       (push st message) tr1 of
                  (Inl error, tr2) \<Rightarrow> (Inl error, tr2)
                | (Inr st2, tr2) \<Rightarrow> agent_loop env (iterations + 1) st2 tr2))
      else (Inr st, tr))"
  by pat_completeness auto
termination
  by (relation "measure (\<lambda>(env, iterations, st, tr). maxIterations - iterations)") auto

declare agent_loop.simps [simp del]

definition runAgent ::
  "env \<Rightarrow> event list \<Rightarrow> Message list \<Rightarrow> (js_error + Message list) \<times> event list" where
  "runAgent env tr messages =
     (case agent_loop env 0 \<lparr>conversationMessages = systemMessage # messages, newMessages = []\<rparr> tr of
        (Inl error, tr1) \<Rightarrow> (Inl error, tr1)
      | (Inr st, tr1) \<Rightarrow> (Inr (newMessages st), tr1))"

subsection \<open>The request handler\<close>

record turn_request =
  conversationId :: "string option"
  message :: string

text \<open>The request: its method and what \<open>req.json()\<close> gives. The response: its status
  and JSON body (the CORS headers are constant).\<close>

record request =
  req_method :: string
  req_json :: "js_error + turn_request"

datatype response_body =
    No_Body
  | Turn_Response string string
  | Error_Response string

record response =
  status :: nat
  body :: response_body

definition user_row :: "string \<Rightarrow> string \<Rightarrow> row" where
  "user_row cid text =
     \<lparr>conversation_id = cid, row_role = User, row_content = text,
      row_tool_calls = None, row_tool_call_id = None\<rparr>"

text \<open>The row of one produced message: \<open>msg.tool_calls || null\<close>,
  \<open>msg.tool_call_id || null\<close>.\<close>

definition message_row :: "string \<Rightarrow> Message \<Rightarrow> row" where
  "message_row cid msg =
     \<lparr>conversation_id = cid, row_role = role msg, row_content = content msg,
      row_tool_calls = tool_calls msg,
      row_tool_call_id = (if falsy (tool_call_id msg) then None else tool_call_id msg)\<rparr>"

text \<open>\<open>for (const msg of agentMessages) await supabase.from("messages").insert(...)\<close>: the
  outcome of each insert is not looked at.\<close>

fun save_all :: "event list \<Rightarrow> string \<Rightarrow> Message list \<Rightarrow> event list" where
  "save_all tr cid [] = tr"
| "save_all tr cid (msg # msgs) = save_all (tr @ [Ev_Insert_Message (message_row cid msg)]) cid msgs"

definition fallback :: string where
  "fallback = ''I apologize, but I couldn'' @ [CHR 0x27] @ ''t generate a response.''"

text \<open>\<open>agentMessages.filter(m => m.role === "assistant").pop()\<close>, then
  \<open>assistantResponse?.content || fallback\<close>.\<close>

definition response_text :: "Message list \<Rightarrow> string" where
  "response_text agentMessages =
     (case rev (filter (\<lambda>m. role m = Assistant) agentMessages) of
        [] \<Rightarrow> fallback
      | assistantResponse # others \<Rightarrow>
          if content assistantResponse = [] then fallback else content assistantResponse)"

text \<open>The body of the handler's \<open>try\<close> block.\<close>

definition turn :: "env \<Rightarrow> event list \<Rightarrow> request \<Rightarrow> (js_error + response) \<times> event list" where
  "turn env tr req =
     (case req_json req of
        Inl error \<Rightarrow> (Inl error, tr)
      | Inr rq \<Rightarrow>
     (case createClient env of
        Some error \<Rightarrow> (Inl error, tr)
      | None \<Rightarrow>
     (case (if falsy (conversationId rq)
            then (insert_conversation env tr (take 50 (message rq)),
                  tr @ [Ev_Insert_Conversation (take 50 (message rq))])
            else (Inr (case conversationId rq of None \<Rightarrow> [] | Some c \<Rightarrow> c), tr)) of
        (Inl convError, tr1) \<Rightarrow> (Inl convError, tr1)
      | (Inr actualConversationId, tr1) \<Rightarrow>
     (let tr2 = tr1 @ [Ev_Insert_Message (user_row actualConversationId (message rq))] in
      case insert_message env tr1 (user_row actualConversationId (message rq)) of
        Some userMsgError \<Rightarrow> (Inl userMsgError, tr2)
      | None \<Rightarrow>
     (let tr3 = tr2 @ [Ev_Select_History actualConversationId] in
      case select_history env tr2 actualConversationId of
        Inl historyError \<Rightarrow> (Inl historyError, tr3)
      | Inr history \<Rightarrow>
     (case runAgent env tr3 history of
        (Inl error, tr4) \<Rightarrow> (Inl error, tr4)
      | (Inr agentMessages, tr4) \<Rightarrow>
          (Inr \<lparr>status = 200,
                body = Turn_Response actualConversationId (response_text agentMessages)\<rparr>,
           save_all tr4 actualConversationId agentMessages)))))))"

text \<open>\<open>Deno.serve(async (req) => ...)\<close>\<close>

definition serve :: "env \<Rightarrow> event list \<Rightarrow> request \<Rightarrow> response \<times> event list" where
  "serve env tr req =
     (if req_method req = ''OPTIONS'' then (\<lparr>status = 200, body = No_Body\<rparr>, tr)
      else
        (case turn env tr req of
           (Inl error, tr1) \<Rightarrow> (\<lparr>status = 500, body = Error_Response (message_of error)\<rparr>, tr1)
         | (Inr resp, tr1) \<Rightarrow> (resp, tr1)))"

subsection \<open>Reading a trace\<close>

text \<open>A call of \<open>callOpenAI\<close>, a request really sent to the completion provider, and
  the events of executing a tool.\<close>

fun is_complete :: "event \<Rightarrow> bool" where
  "is_complete (Ev_Complete ms b) = True"
| "is_complete e = False"

fun is_fetch :: "event \<Rightarrow> bool" where
  "is_fetch (Ev_OpenAI_Fetch b) = True"
| "is_fetch e = False"

fun is_tool :: "event \<Rightarrow> bool" where
  "is_tool (Ev_Tool n a) = True"
| "is_tool (Ev_Tavily_Fetch q) = True"
| "is_tool e = False"

text \<open>A call of \<open>executeTool\<close>.\<close>

fun is_execution :: "event \<Rightarrow> bool" where
  "is_execution (Ev_Tool n a) = True"
| "is_execution e = False"

text \<open>The rows a trace inserts into the \<open>messages\<close> table, in order.\<close>

fun inserted_rows :: "event list \<Rightarrow> row list" where
  "inserted_rows [] = []"
| "inserted_rows (Ev_Insert_Message r # tr) = r # inserted_rows tr"
| "inserted_rows (e # tr) = inserted_rows tr"

subsection \<open>What a run produced\<close>



subsection \<open>Pairing of tool messages with tool calls\<close>

definition calls :: "Message \<Rightarrow> ToolCall list" where
  "calls m = (case tool_calls m of None \<Rightarrow> [] | Some tcs \<Rightarrow> tcs)"

text \<open>
  A message sequence is well paired when it is a sequence of blocks, each an assistant
  message followed by exactly one tool message per tool call of that assistant message,
  in the order of the calls and carrying their ids.
\<close>

fun well_paired :: "Message list \<Rightarrow> bool" where
  "well_paired [] = True"
| "well_paired (m # ms) =
     (role m = Assistant \<and> length (calls m) \<le> length ms \<and>
      map role (take (length (calls m)) ms) = replicate (length (calls m)) Tool \<and>
      map tool_call_id (take (length (calls m)) ms) = map (\<lambda>tc. Some (call_id tc)) (calls m) \<and>
      well_paired (drop (length (calls m)) ms))"

text \<open>A history holds an orphan when some tool message answers no tool call of the
  nearest assistant message before it; \<open>ids\<close> are the call ids of that message.\<close>

fun has_orphan :: "string list \<Rightarrow> Message list \<Rightarrow> bool" where
  "has_orphan ids [] = False"
| "has_orphan ids (m # ms) =
     (if role m = Assistant then has_orphan (map call_id (calls m)) ms
      else if role m = Tool then
        (case tool_call_id m of
           None \<Rightarrow> True
         | Some i \<Rightarrow> if i \<in> set ids then has_orphan ids ms else True)
      else has_orphan ids ms)"

subsection \<open>Stub collaborators for the examples\<close>

text \<open>A store that keeps what was inserted: the history of a conversation is the rows
  the trace inserted under its id.\<close>

definition row_message :: "row \<Rightarrow> Message" where
  "row_message r =
     \<lparr>role = row_role r, content = row_content r, tool_calls = row_tool_calls r,
      tool_call_id = row_tool_call_id r\<rparr>"

fun stored_messages :: "event list \<Rightarrow> string \<Rightarrow> Message list" where
  "stored_messages [] cid = []"
| "stored_messages (Ev_Insert_Message r # tr) cid =
     (if conversation_id r = cid then row_message r # stored_messages tr cid
      else stored_messages tr cid)"
| "stored_messages (e # tr) cid = stored_messages tr cid"

definition user_message :: "string \<Rightarrow> Message" where
  "user_message text = \<lparr>role = User, content = text, tool_calls = None, tool_call_id = None\<rparr>"

definition paris_question :: string where
  "paris_question = ''What is the weather in Paris today?''"

text \<open>Two argument texts of a tool call: a complete one, and one cut off in the middle
  of a string, as a completion that ran into its token ceiling leaves it.\<close>

definition paris_arguments :: string where
  \<open>paris_arguments = ''{"query":"weather in Paris today"}''\<close>

definition cut_arguments :: string where
  \<open>cut_arguments = ''{"query":"weather in Par''\<close>

text \<open>\<open>JSON.parse\<close> on the argument texts the examples use: an object, the empty object,
  \<open>null\<close>, and the cut text, which the runtime rejects as an unterminated string with
  the message given here. The table stands for the runtime on these four texts only; no
  example reaches the last line.\<close>

definition parse_stub :: "string \<Rightarrow> js_error + json" where
  "parse_stub text =
     (if text = paris_arguments then Inr (JObject [(''query'', JString ''weather in Paris today'')])
      else if text = ''{}'' then Inr (JObject [])
      else if text = ''null'' then Inr JNull
      else if text = cut_arguments then Inl (SyntaxError ''Unterminated string in JSON at position 24 (line 1 column 25)'')
      else Inl (SyntaxError ''Unexpected token''))"

definition paris_call :: ToolCall where
  "paris_call = \<lparr>call_id = ''call_1'', fn_name = ''web_search'', fn_arguments = paris_arguments\<rparr>"

definition paris_result :: TavilySearchResult where
  "paris_result =
     \<lparr>title = ''Paris weather'', url = ''https://example.org/paris'', excerpt = ''18 C and cloudy''\<rparr>"

definition reply :: "string option \<Rightarrow> ToolCall list option \<Rightarrow> string \<Rightarrow> choice list fetched" where
  "reply c tcs fr =
     Response 200 [] (Inr [\<lparr>message_content = c, message_tool_calls = tcs, finish_reason = fr\<rparr>])"

text \<open>The second example scenario: the provider asks for one search, then answers.\<close>

definition stub_env :: env where
  "stub_env =
     \<lparr>OPENAI_API_KEY = Some ''sk-test'',
      TAVILY_API_KEY = Some ''tvly-test'',
      JSON_parse = parse_stub,
      openai_api = (\<lambda>tr body.
         if role (last (request_messages body)) = Tool
         then reply (Some ''It is 18 C and cloudy [1].'') None ''stop''
         else reply None (Some [paris_call]) ''tool_calls''),
      tavily_api = (\<lambda>tr query. Response 200 [] (Inr (Some [paris_result]))),
      createClient = None,
      insert_conversation = (\<lambda>tr title. Inr ''conv-1''),
      insert_message = (\<lambda>tr r. None),
      select_history = (\<lambda>tr cid. Inr (stored_messages tr cid))\<rparr>"

text \<open>The third scenario: every completion asks for a search again, with some text.\<close>

definition looping_env :: env where
  "looping_env =
     stub_env\<lparr>openai_api :=
       (\<lambda>tr body. reply (Some ''Let me look that up.'') (Some [paris_call]) ''tool_calls'')\<rparr>"

text \<open>The first scenario: a plain answer.\<close>

definition plain_env :: env where
  "plain_env = stub_env\<lparr>openai_api := (\<lambda>tr body. reply (Some ''Hi there!'') None ''stop'')\<rparr>"

text \<open>The fifth scenario: no completion credential.\<close>

definition no_key_env :: env where
  "no_key_env = stub_env\<lparr>OPENAI_API_KEY := None\<rparr>"

text \<open>A provider that asks for one search and then fails with status 500.\<close>

definition flaky_env :: env where
  "flaky_env =
     stub_env\<lparr>openai_api := (\<lambda>tr body.
         if role (last (request_messages body)) = Tool
         then Response 500 ''overloaded'' (Inr [])
         else reply None (Some [paris_call]) ''tool_calls'')\<rparr>"

text \<open>The working transcript after one round of that search.\<close>

definition searched_messages :: "Message list" where
  "searched_messages =
     [systemMessage, user_message paris_question,
      \<lparr>role = Assistant, content = [], tool_calls = Some [paris_call], tool_call_id = None\<rparr>,
      toolMessage paris_call (render 0 paris_result)]"

text \<open>A provider whose tool call carries arguments that were cut off, for the registered
  tool and for a tool that is not registered.\<close>

definition cut_env :: env where
  "cut_env =
     stub_env\<lparr>openai_api := (\<lambda>tr body.
        reply None (Some [paris_call\<lparr>fn_arguments := cut_arguments\<rparr>]) ''length'')\<rparr>"

definition calculator_call :: ToolCall where
  "calculator_call = \<lparr>call_id = ''call_2'', fn_name = ''calculator'', fn_arguments = cut_arguments\<rparr>"

definition calculator_env :: env where
  "calculator_env =
     stub_env\<lparr>openai_api := (\<lambda>tr body. reply None (Some [calculator_call]) ''length'')\<rparr>"

text \<open>Requests: the first turn of a new conversation, and a turn of the conversation
  \<open>conv-1\<close>. The trace \<open>orphan_trace\<close> is an earlier life of that conversation in which
  a tool row was stored that answers no tool call.\<close>

definition first_turn :: request where
  "first_turn =
     \<lparr>req_method = ''POST'', req_json = Inr \<lparr>conversationId = None, message = paris_question\<rparr>\<rparr>"

definition next_turn :: request where
  "next_turn =
     \<lparr>req_method = ''POST'', req_json = Inr \<lparr>conversationId = Some ''conv-1'', message = ''Hello''\<rparr>\<rparr>"

definition orphan_trace :: "event list" where
  "orphan_trace =
     [Ev_Insert_Message (user_row ''conv-1'' ''Hi''),
      Ev_Insert_Message \<lparr>conversation_id = ''conv-1'', row_role = Assistant, row_content = ''Hello!'',
                         row_tool_calls = None, row_tool_call_id = None\<rparr>,
      Ev_Insert_Message \<lparr>conversation_id = ''conv-1'', row_role = Tool, row_content = ''stale result'',
                         row_tool_calls = None, row_tool_call_id = Some ''call_404''\<rparr>]"


section \<open>Properties\<close>

subsection \<open>What each function adds to the trace\<close>

lemma webSearch_trace:
  "snd (webSearch env tr q) = tr \<or> snd (webSearch env tr q) = tr @ [Ev_Tavily_Fetch q]"
  by (simp add: webSearch_def Let_def split: fetched.splits sum.splits)

lemma executeTool_trace:
  "\<exists>evs. snd (executeTool env tr name args) = tr @ evs \<and> list_all is_tool evs"
proof (cases "name = ''web_search''")
  case False
  then show ?thesis by (simp add: executeTool_def Let_def)
next
  case True
  show ?thesis
  proof (cases "get_property args ''query''")
    case (Inl e)
    with True show ?thesis by (simp add: executeTool_def Let_def)
  next
    case (Inr q)
    from webSearch_trace [of env "tr @ [Ev_Tool name args]" q]
    show ?thesis using True Inr
      by (auto simp: executeTool_def Let_def split: prod.splits)
  qed
qed

lemma run_tool_calls_trace:
  "\<exists>evs. snd (run_tool_calls env tcs st tr) = tr @ evs \<and> list_all is_tool evs"
proof (induction tcs arbitrary: st tr)
  case Nil
  show ?case by simp
next
  case (Cons tc tcs)
  show ?case
  proof (cases "JSON_parse env (fn_arguments tc)")
    case (Inl e)
    then show ?thesis by simp
  next
    case (Inr args)
    obtain r tr1 where ex: "executeTool env tr (fn_name tc) args = (r, tr1)"
      by (cases "executeTool env tr (fn_name tc) args")
    from executeTool_trace [of env tr "fn_name tc" args] ex
    obtain evs where evs: "tr1 = tr @ evs" "list_all is_tool evs" by auto
    show ?thesis
    proof (cases r)
      case (Inl e)
      with Inr ex evs show ?thesis by simp
    next
      case r: (Inr result)
      from Cons.IH [of "push st (toolMessage tc result)" tr1]
      obtain evs' where "snd (run_tool_calls env tcs (push st (toolMessage tc result)) tr1) = tr1 @ evs'"
        "list_all is_tool evs'" by blast
      with Inr ex evs r show ?thesis by simp
    qed
  qed
qed

lemma callOpenAI_trace:
  "snd (callOpenAI env tr ms b) = tr @ [Ev_Complete ms b] \<or>
   snd (callOpenAI env tr ms b) =
     tr @ [Ev_Complete ms b, Ev_OpenAI_Fetch \<lparr>request_messages = map request_message ms, request_tools = b\<rparr>]"
  by (simp add: callOpenAI_def Let_def split: fetched.splits sum.splits list.splits)

subsection \<open>An induction rule for the loop\<close>

text \<open>One case per way through the body of the \<open>while\<close> loop: the condition fails, the
  completion call throws, the completion carries no tool call, a tool call throws, or the
  loop goes round again.\<close>

lemma agent_loop_rule [case_names left thrown answer tool_thrown again]:
  assumes left: "\<And>i st tr. \<not> i < maxIterations \<Longrightarrow> P i st tr (Inr st, tr)"
    and thrown: "\<And>i st tr e tr1. i < maxIterations \<Longrightarrow>
        callOpenAI env tr (conversationMessages st) True = (Inl e, tr1) \<Longrightarrow> P i st tr (Inl e, tr1)"
    and answer: "\<And>i st tr m fr tr1. i < maxIterations \<Longrightarrow>
        callOpenAI env tr (conversationMessages st) True = (Inr (m, fr), tr1) \<Longrightarrow>
        no_tool_calls m \<Longrightarrow> P i st tr (Inr (st\<lparr>newMessages := newMessages st @ [m]\<rparr>), tr1)"
    and tool_thrown: "\<And>i st tr m fr tr1 e tr2. i < maxIterations \<Longrightarrow>
        callOpenAI env tr (conversationMessages st) True = (Inr (m, fr), tr1) \<Longrightarrow>
        \<not> no_tool_calls m \<Longrightarrow>
        run_tool_calls env (calls m) (push st m) tr1 = (Inl e, tr2) \<Longrightarrow> P i st tr (Inl e, tr2)"
    and again: "\<And>i st tr m fr tr1 st2 tr2. i < maxIterations \<Longrightarrow>
        callOpenAI env tr (conversationMessages st) True = (Inr (m, fr), tr1) \<Longrightarrow>
        \<not> no_tool_calls m \<Longrightarrow>
        run_tool_calls env (calls m) (push st m) tr1 = (Inr st2, tr2) \<Longrightarrow>
        P (i + 1) st2 tr2 (agent_loop env (i + 1) st2 tr2) \<Longrightarrow>
        P i st tr (agent_loop env (i + 1) st2 tr2)"
  shows "P i st tr (agent_loop env i st tr)"
proof (induction "maxIterations - i" arbitrary: i st tr)
  case 0
  then have "\<not> i < maxIterations" by simp
  then show ?case using left [of i st tr] by (simp add: agent_loop.simps)
next
  case (Suc n)
  then have lt: "i < maxIterations" by simp
  obtain r tr1 where c: "callOpenAI env tr (conversationMessages st) True = (r, tr1)"
    by (cases "callOpenAI env tr (conversationMessages st) True")
  show ?case
  proof (cases r)
    case (Inl e)
    with thrown [OF lt] c lt show ?thesis by (simp add: agent_loop.simps [of env i])
  next
    case (Inr mf)
    obtain m fr where mf: "mf = (m, fr)" by (cases mf)
    show ?thesis
    proof (cases "no_tool_calls m")
      case True
      with answer [OF lt] c Inr mf lt show ?thesis
        by (simp add: agent_loop.simps [of env i])
    next
      case False
      obtain r2 tr2 where t: "run_tool_calls env (calls m) (push st m) tr1 = (r2, tr2)"
        by (cases "run_tool_calls env (calls m) (push st m) tr1")
      show ?thesis
      proof (cases r2)
        case (Inl e)
        with tool_thrown [OF lt] c Inr mf False t lt show ?thesis
          by (simp add: agent_loop.simps [of env i] calls_def)
      next
        case r2: (Inr st2)
        from Suc.hyps have "n = maxIterations - (i + 1)" by simp
        from Suc.hyps(1) [OF this]
        have "P (i + 1) st2 tr2 (agent_loop env (i + 1) st2 tr2)" .
        from again [OF lt _ False _ this] c Inr mf t r2
        have "P i st tr (agent_loop env (i + 1) st2 tr2)" by simp
        moreover have "agent_loop env i st tr = agent_loop env (i + 1) st2 tr2"
          using c Inr mf False t r2 lt by (simp add: agent_loop.simps [of env i] calls_def)
        ultimately show ?thesis by simp
      qed
    qed
  qed
qed

lemma tool_events_only:
  "list_all is_tool evs \<Longrightarrow> filter is_complete evs = [] \<and> filter is_fetch evs = []"
proof (induction evs)
  case Nil
  show ?case by simp
next
  case (Cons e evs)
  then show ?case by (cases e) simp_all
qed

lemma agent_loop_trace:
  "\<exists>evs. snd (agent_loop env i st tr) = tr @ evs \<and>
     length (filter is_complete evs) + i \<le> max i maxIterations \<and>
     length (filter is_fetch evs) \<le> length (filter is_complete evs)"
proof -
  let ?P = "\<lambda>i (st::transcript) tr res. \<exists>evs. snd res = tr @ evs \<and>
     length (filter is_complete evs) + i \<le> max i maxIterations \<and>
     length (filter is_fetch evs) \<le> length (filter is_complete evs)"
  have "?P i st tr (agent_loop env i st tr)"
  proof (induction rule: agent_loop_rule [where P = ?P])
    case (left i st tr)
    then show ?case by simp
  next
    case (thrown i st tr e tr1)
    with callOpenAI_trace [of env tr "conversationMessages st" True]
    show ?case by auto
  next
    case (answer i st tr m fr tr1)
    with callOpenAI_trace [of env tr "conversationMessages st" True]
    show ?case by auto
  next
    case (tool_thrown i st tr m fr tr1 e tr2)
    from run_tool_calls_trace [of env "calls m" "push st m" tr1] tool_thrown(4)
    obtain evs where "tr2 = tr1 @ evs" "list_all is_tool evs" by auto
    moreover have "filter is_complete evs = []" "filter is_fetch evs = []"
      using tool_events_only [OF \<open>list_all is_tool evs\<close>] by simp_all
    ultimately show ?case
      using callOpenAI_trace [of env tr "conversationMessages st" True] tool_thrown(1,2)
      by auto
  next
    case (again i st tr m fr tr1 st2 tr2)
    from run_tool_calls_trace [of env "calls m" "push st m" tr1] again(4)
    obtain evs where evs: "tr2 = tr1 @ evs" "list_all is_tool evs" by auto
    have none: "filter is_complete evs = []" "filter is_fetch evs = []"
      using tool_events_only [OF evs(2)] by simp_all
    from again(5) obtain evs' where evs': "snd (agent_loop env (i + 1) st2 tr2) = tr2 @ evs'"
      "length (filter is_complete evs') + (i + 1) \<le> max (i + 1) maxIterations"
      "length (filter is_fetch evs') \<le> length (filter is_complete evs')" by blast
    show ?case
      using callOpenAI_trace [of env tr "conversationMessages st" True] again(1,2) evs none evs'
      by auto
  qed
  then show ?thesis .
qed

subsection \<open>What the loop adds to the output\<close>

lemma callOpenAI_message:
  "callOpenAI env tr ms b = (Inr (m, fr), tr1) \<Longrightarrow> role m = Assistant \<and> tool_call_id m = None"
  by (auto simp: callOpenAI_def Let_def no_key_message_def
      split: if_splits fetched.splits sum.splits list.splits)

lemma run_tool_calls_pushes:
  "run_tool_calls env tcs st tr = (Inr st', tr') \<Longrightarrow>
   \<exists>results. length results = length tcs \<and>
     newMessages st' = newMessages st @ map2 toolMessage tcs results \<and>
     conversationMessages st' = conversationMessages st @ map2 toolMessage tcs results"
proof (induction tcs arbitrary: st tr)
  case Nil
  then show ?case by simp
next
  case (Cons tc tcs)
  from Cons.prems obtain args where args: "JSON_parse env (fn_arguments tc) = Inr args"
    by (cases "JSON_parse env (fn_arguments tc)") simp_all
  obtain r tr1 where ex: "executeTool env tr (fn_name tc) args = (r, tr1)"
    by (cases "executeTool env tr (fn_name tc) args")
  from Cons.prems args ex obtain result where r: "r = Inr result"
    by (cases r) simp_all
  from Cons.prems args ex r
  have "run_tool_calls env tcs (push st (toolMessage tc result)) tr1 = (Inr st', tr')" by simp
  from Cons.IH [OF this] obtain results where res: "length results = length tcs"
    "newMessages st' = newMessages (push st (toolMessage tc result)) @ map2 toolMessage tcs results"
    "conversationMessages st' =
       conversationMessages (push st (toolMessage tc result)) @ map2 toolMessage tcs results"
    by blast
  show ?case
  proof (intro exI conjI)
    show "length (result # results) = length (tc # tcs)" using res(1) by simp
    show "newMessages st' = newMessages st @ map2 toolMessage (tc # tcs) (result # results)"
      using res(2) by (simp add: push_def)
    show "conversationMessages st' =
        conversationMessages st @ map2 toolMessage (tc # tcs) (result # results)"
      using res(3) by (simp add: push_def)
  qed
qed

lemma tool_messages_roles:
  "length results = length tcs \<Longrightarrow> map role (map2 toolMessage tcs results) = replicate (length tcs) Tool"
  by (induction tcs results rule: list_induct2') (simp_all add: toolMessage_def)

lemma tool_messages_ids:
  "length results = length tcs \<Longrightarrow>
   map tool_call_id (map2 toolMessage tcs results) = map (\<lambda>tc. Some (call_id tc)) tcs"
  by (induction tcs results rule: list_induct2') (simp_all add: toolMessage_def)

lemma well_paired_block:
  assumes "role m = Assistant" and "length results = length (calls m)"
  shows "well_paired (m # map2 toolMessage (calls m) results)"
  using assms tool_messages_roles [OF assms(2)] tool_messages_ids [OF assms(2)]
  by simp

lemma well_paired_append:
  "well_paired xs \<Longrightarrow> well_paired ys \<Longrightarrow> well_paired (xs @ ys)"
proof (induction xs rule: well_paired.induct)
  case 1
  then show ?case by simp
next
  case (2 m ms)
  then show ?case by simp
qed


lemma agent_loop_adds:
  "agent_loop env i st tr = (Inr st', tr') \<Longrightarrow>
   \<exists>added. newMessages st' = newMessages st @ added \<and> well_paired added \<and>
     (i < maxIterations \<longrightarrow> added \<noteq> [])"
proof -
  let ?P = "\<lambda>i (st::transcript) (tr::event list) (res::(js_error + transcript) \<times> event list).
     \<forall>st'. fst res = Inr st' \<longrightarrow>
       (\<exists>added. newMessages st' = newMessages st @ added \<and> well_paired added \<and>
          (i < maxIterations \<longrightarrow> added \<noteq> []))"
  have "?P i st tr (agent_loop env i st tr)"
  proof (induction rule: agent_loop_rule [where P = ?P])
    case (left i st tr)
    then show ?case by simp
  next
    case (thrown i st tr e tr1)
    show ?case by simp
  next
    case (answer i st tr m fr tr1)
    from callOpenAI_message [OF answer(2)] answer(3)
    have "well_paired [m]" by (simp add: calls_def split: option.splits)
    then show ?case by simp
  next
    case (tool_thrown i st tr m fr tr1 e tr2)
    show ?case by simp
  next
    case (again i st tr m fr tr1 st2 tr2)
    from run_tool_calls_pushes [OF again(4)] obtain results where
      res: "length results = length (calls m)"
      "newMessages st2 = newMessages (push st m) @ map2 toolMessage (calls m) results" by blast
    from callOpenAI_message [OF again(2)] have "role m = Assistant" by simp
    from well_paired_block [OF this res(1)]
    have block: "well_paired (m # map2 toolMessage (calls m) results)" .
    show ?case
    proof (intro allI impI)
      fix st' assume "fst (agent_loop env (i + 1) st2 tr2) = Inr st'"
      with again(5) obtain added where added: "newMessages st' = newMessages st2 @ added"
        "well_paired added" by blast
      have "newMessages st' = newMessages st @ (m # map2 toolMessage (calls m) results) @ added"
        using added(1) res(2) by (simp add: push_def)
      moreover have "well_paired ((m # map2 toolMessage (calls m) results) @ added)"
        using well_paired_append [OF block added(2)] .
      ultimately show "\<exists>added. newMessages st' = newMessages st @ added \<and> well_paired added \<and>
          (i < maxIterations \<longrightarrow> added \<noteq> [])"
        by blast
    qed
  qed
  then show "agent_loop env i st tr = (Inr st', tr') \<Longrightarrow> ?thesis" by simp
qed

lemma runAgent_output:
  assumes "runAgent env tr messages = (Inr out, tr')"
  shows "well_paired out \<and> out \<noteq> []"
proof -
  let ?st = "\<lparr>conversationMessages = systemMessage # messages, newMessages = []\<rparr>"
  obtain r tr1 where l: "agent_loop env 0 ?st tr = (r, tr1)"
    by (cases "agent_loop env 0 ?st tr")
  with assms obtain st' where st': "r = Inr st'" "out = newMessages st'"
    by (cases r) (auto simp: runAgent_def)
  from agent_loop_adds [of env 0 ?st tr st' tr1] l st'
  show ?thesis by (auto simp: maxIterations_def)
qed

subsection \<open>The transcripts the loop sends\<close>

lemma tool_events_no_complete:
  "list_all is_tool evs \<Longrightarrow> Ev_Complete ms b \<notin> set evs"
  by (induction evs) auto


lemma agent_loop_first_call:
  "i < maxIterations \<Longrightarrow>
   \<exists>evs. snd (agent_loop env i st tr) = snd (callOpenAI env tr (conversationMessages st) True) @ evs"
proof -
  assume lt: "i < maxIterations"
  obtain r tr1 where c: "callOpenAI env tr (conversationMessages st) True = (r, tr1)"
    by (cases "callOpenAI env tr (conversationMessages st) True")
  show ?thesis
  proof (cases r)
    case (Inl e)
    with c lt show ?thesis by (simp add: agent_loop.simps [of env i])
  next
    case (Inr mf)
    obtain m fr where mf: "mf = (m, fr)" by (cases mf)
    show ?thesis
    proof (cases "no_tool_calls m")
      case True
      with c Inr mf lt show ?thesis by (simp add: agent_loop.simps [of env i])
    next
      case False
      obtain r2 tr2 where t: "run_tool_calls env (calls m) (push st m) tr1 = (r2, tr2)"
        by (cases "run_tool_calls env (calls m) (push st m) tr1")
      from run_tool_calls_trace [of env "calls m" "push st m" tr1] t
      obtain evs1 where evs1: "tr2 = tr1 @ evs1" by auto
      show ?thesis
      proof (cases r2)
        case (Inl e)
        with c Inr mf False t lt evs1 show ?thesis
          by (simp add: agent_loop.simps [of env i] calls_def)
      next
        case r2: (Inr st2)
        from agent_loop_trace [of env "i + 1" st2 tr2]
        obtain evs2 where "snd (agent_loop env (i + 1) st2 tr2) = tr2 @ evs2" by blast
        with c Inr mf False t lt evs1 r2 show ?thesis
          by (simp add: agent_loop.simps [of env i] calls_def)
      qed
    qed
  qed
qed

lemma runAgent_first_call:
  "\<exists>evs. snd (runAgent env tr messages) = snd (callOpenAI env tr (systemMessage # messages) True) @ evs"
proof -
  let ?st = "\<lparr>conversationMessages = systemMessage # messages, newMessages = []\<rparr>"
  have "snd (runAgent env tr messages) = snd (agent_loop env 0 ?st tr)"
    by (simp add: runAgent_def split: prod.splits sum.splits)
  with agent_loop_first_call [of 0 env ?st tr] show ?thesis by (simp add: maxIterations_def)
qed

subsection \<open>One output message per completion call and tool execution\<close>





subsection \<open>The output is what the calls of the run returned\<close>






subsection \<open>A failed provider request ends the run\<close>

lemma split_after:
  "xs @ ys = pre @ c # rest \<Longrightarrow> c \<notin> set xs \<Longrightarrow> \<exists>pre2. pre = xs @ pre2 \<and> ys = pre2 @ c # rest"
proof (induction xs arbitrary: pre)
  case Nil
  then show ?case by simp
next
  case (Cons x xs)
  from Cons.prems obtain pre' where pre: "pre = x # pre'"
    by (cases pre) auto
  with Cons.prems have "xs @ ys = pre' @ c # rest" "c \<notin> set xs" by simp_all
  from Cons.IH [OF this] pre show ?case by simp
qed

text \<open>The three ways a call of \<open>callOpenAI\<close> goes.\<close>

lemma callOpenAI_cases [case_names no_key failed sent]:
  assumes no_key: "falsy (OPENAI_API_KEY env) \<Longrightarrow>
      callOpenAI env tr ms b = (Inr (no_key_message, ''stop''), tr @ [Ev_Complete ms b]) \<Longrightarrow> thesis"
    and failed: "\<And>code text data.
      openai_api env (tr @ [Ev_Complete ms b])
        \<lparr>request_messages = map request_message ms, request_tools = b\<rparr> = Response code text data \<Longrightarrow>
      \<not> ok code \<Longrightarrow>
      callOpenAI env tr ms b =
        (Inl (Error (''OpenAI API error: '' @ string_of_nat code @ '' - '' @ text)),
         tr @ [Ev_Complete ms b,
               Ev_OpenAI_Fetch \<lparr>request_messages = map request_message ms, request_tools = b\<rparr>]) \<Longrightarrow>
      thesis"
    and sent: "snd (callOpenAI env tr ms b) =
        tr @ [Ev_Complete ms b,
              Ev_OpenAI_Fetch \<lparr>request_messages = map request_message ms, request_tools = b\<rparr>] \<Longrightarrow>
      \<forall>code text data. openai_api env (tr @ [Ev_Complete ms b])
        \<lparr>request_messages = map request_message ms, request_tools = b\<rparr> = Response code text data
        \<longrightarrow> ok code \<Longrightarrow> thesis"
  shows thesis
proof (cases "falsy (OPENAI_API_KEY env)")
  case True
  then show ?thesis by (intro no_key) (simp_all add: callOpenAI_def)
next
  case False
  let ?body = "\<lparr>request_messages = map request_message ms, request_tools = b\<rparr>"
  show ?thesis
  proof (cases "openai_api env (tr @ [Ev_Complete ms b]) ?body")
    case (Rejected e)
    show ?thesis
    proof (rule sent)
      show "snd (callOpenAI env tr ms b) = tr @ [Ev_Complete ms b, Ev_OpenAI_Fetch ?body]"
        using False Rejected by (simp add: callOpenAI_def Let_def)
      show "\<forall>code text data. openai_api env (tr @ [Ev_Complete ms b]) ?body = Response code text data
        \<longrightarrow> ok code" using Rejected by simp
    qed
  next
    case (Response code reason data)
    show ?thesis
    proof (cases "ok code")
      case True
      show ?thesis
      proof (rule sent)
        show "snd (callOpenAI env tr ms b) = tr @ [Ev_Complete ms b, Ev_OpenAI_Fetch ?body]"
          using False Response True
          by (simp add: callOpenAI_def Let_def split: sum.splits list.splits)
        show "\<forall>code text data. openai_api env (tr @ [Ev_Complete ms b]) ?body = Response code text data
          \<longrightarrow> ok code" using Response True by simp
      qed
    next
      case nok: False
      show ?thesis
      proof (rule failed [OF Response nok])
        show "callOpenAI env tr ms b =
          (Inl (Error (''OpenAI API error: '' @ string_of_nat code @ '' - '' @ reason)),
           tr @ [Ev_Complete ms b, Ev_OpenAI_Fetch ?body])"
          using False Response nok by (simp add: callOpenAI_def Let_def)
      qed
    qed
  qed
qed

lemma pair_position:
  assumes "Ev_Complete cm c # Ev_OpenAI_Fetch f # rest =
      pre @ Ev_Complete ms b # Ev_OpenAI_Fetch payload # post"
  shows "(pre = [] \<and> ms = cm \<and> b = c \<and> payload = f \<and> post = rest) \<or>
    (\<exists>pre'. pre = Ev_Complete cm c # Ev_OpenAI_Fetch f # pre' \<and>
       rest = pre' @ Ev_Complete ms b # Ev_OpenAI_Fetch payload # post)"
proof (cases pre)
  case Nil
  with assms show ?thesis by simp
next
  case (Cons x xs)
  with assms have x: "x = Ev_Complete cm c"
    and xs: "Ev_OpenAI_Fetch f # rest = xs @ Ev_Complete ms b # Ev_OpenAI_Fetch payload # post"
    by simp_all
  from xs obtain xs' where "xs = Ev_OpenAI_Fetch f # xs'" by (cases xs) auto
  with xs x Cons show ?thesis by simp
qed

lemma agent_loop_stops_at_failure:
  assumes "snd (agent_loop env i st tr) = tr @ pre @ Ev_Complete ms b # Ev_OpenAI_Fetch payload # post"
    and "openai_api env (tr @ pre @ [Ev_Complete ms b]) payload = Response code reason data"
    and "\<not> ok code"
  shows "post = [] \<and>
    fst (agent_loop env i st tr) =
      Inl (Error (''OpenAI API error: '' @ string_of_nat code @ '' - '' @ reason))"
proof -
  let ?P = "\<lambda>(i::nat) (st::transcript) (tr::event list) (res::(js_error + transcript) \<times> event list).
     \<forall>pre. snd res = tr @ pre @ Ev_Complete ms b # Ev_OpenAI_Fetch payload # post \<longrightarrow>
       openai_api env (tr @ pre @ [Ev_Complete ms b]) payload = Response code reason data \<longrightarrow>
       post = [] \<and>
       fst res = Inl (Error (''OpenAI API error: '' @ string_of_nat code @ '' - '' @ reason))"
  have "?P i st tr (agent_loop env i st tr)"
  proof (induction rule: agent_loop_rule [where P = ?P])
    case (left i st tr)
    show ?case by simp
  next
    case (thrown i st tr e tr1)
    show ?case
    proof (cases rule: callOpenAI_cases [of env tr "conversationMessages st" True])
      case no_key
      with thrown(2) show ?thesis by simp
    next
      case (failed code' reason' data')
      show ?thesis
      proof (intro allI impI)
        fix pre
        assume d: "snd (Inl e, tr1) = tr @ pre @ Ev_Complete ms b # Ev_OpenAI_Fetch payload # post"
          and o: "openai_api env (tr @ pre @ [Ev_Complete ms b]) payload = Response code reason data"
        from d thrown(2) failed(3)
        have "Ev_Complete (conversationMessages st) True #
            Ev_OpenAI_Fetch \<lparr>request_messages = map request_message (conversationMessages st),
              request_tools = True\<rparr> # [] =
            pre @ Ev_Complete ms b # Ev_OpenAI_Fetch payload # post" by simp
        from pair_position [OF this]
        have p: "pre = []" "ms = conversationMessages st" "b = True"
          "payload = \<lparr>request_messages = map request_message (conversationMessages st),
              request_tools = True\<rparr>" "post = []" by auto
        with o failed(1) have "code' = code" "reason' = reason" by simp_all
        with p thrown(2) failed(3)
        show "post = [] \<and> fst (Inl e, tr1) =
            Inl (Error (''OpenAI API error: '' @ string_of_nat code @ '' - '' @ reason))"
          by simp
      qed
    next
      case sent
      show ?thesis
      proof (intro allI impI)
        fix pre
        assume d: "snd (Inl e, tr1) = tr @ pre @ Ev_Complete ms b # Ev_OpenAI_Fetch payload # post"
          and o: "openai_api env (tr @ pre @ [Ev_Complete ms b]) payload = Response code reason data"
        from d thrown(2) sent(1)
        have "Ev_Complete (conversationMessages st) True #
            Ev_OpenAI_Fetch \<lparr>request_messages = map request_message (conversationMessages st),
              request_tools = True\<rparr> # [] =
            pre @ Ev_Complete ms b # Ev_OpenAI_Fetch payload # post" by simp
        from pair_position [OF this]
        have p: "pre = []" "ms = conversationMessages st" "b = True"
          "payload = \<lparr>request_messages = map request_message (conversationMessages st),
              request_tools = True\<rparr>" by auto
        with o sent(2) assms(3) have False by auto
        then show "post = [] \<and> fst (Inl e, tr1) =
            Inl (Error (''OpenAI API error: '' @ string_of_nat code @ '' - '' @ reason))" ..
      qed
    qed
  next
    case (answer i st tr m fr tr1)
    show ?case
    proof (cases rule: callOpenAI_cases [of env tr "conversationMessages st" True])
      case no_key
      with answer(2) have tr1: "tr1 = tr @ [Ev_Complete (conversationMessages st) True]" by simp
      show ?thesis
      proof (intro allI impI)
        fix pre
        assume "snd (Inr (st\<lparr>newMessages := newMessages st @ [m]\<rparr>), tr1) =
            tr @ pre @ Ev_Complete ms b # Ev_OpenAI_Fetch payload # post"
        with tr1 have "[Ev_Complete (conversationMessages st) True] =
            pre @ Ev_Complete ms b # Ev_OpenAI_Fetch payload # post" by simp
        then have "length [Ev_Complete (conversationMessages st) True] =
            length (pre @ Ev_Complete ms b # Ev_OpenAI_Fetch payload # post)" by (rule arg_cong)
        then have False by simp
        then show "post = [] \<and> fst (Inr (st\<lparr>newMessages := newMessages st @ [m]\<rparr>), tr1) =
            Inl (Error (''OpenAI API error: '' @ string_of_nat code @ '' - '' @ reason))" ..
      qed
    next
      case (failed code' reason' data')
      with answer(2) show ?thesis by simp
    next
      case sent
      show ?thesis
      proof (intro allI impI)
        fix pre
        assume d: "snd (Inr (st\<lparr>newMessages := newMessages st @ [m]\<rparr>), tr1) =
            tr @ pre @ Ev_Complete ms b # Ev_OpenAI_Fetch payload # post"
          and o: "openai_api env (tr @ pre @ [Ev_Complete ms b]) payload = Response code reason data"
        from d answer(2) sent(1)
        have "Ev_Complete (conversationMessages st) True #
            Ev_OpenAI_Fetch \<lparr>request_messages = map request_message (conversationMessages st),
              request_tools = True\<rparr> # [] =
            pre @ Ev_Complete ms b # Ev_OpenAI_Fetch payload # post" by simp
        from pair_position [OF this]
        have p: "pre = []" "ms = conversationMessages st" "b = True"
          "payload = \<lparr>request_messages = map request_message (conversationMessages st),
              request_tools = True\<rparr>" by auto
        with o sent(2) assms(3) have False by auto
        then show "post = [] \<and> fst (Inr (st\<lparr>newMessages := newMessages st @ [m]\<rparr>), tr1) =
            Inl (Error (''OpenAI API error: '' @ string_of_nat code @ '' - '' @ reason))" ..
      qed
    qed
  next
    case (tool_thrown i st tr m fr tr1 e tr2)
    from run_tool_calls_trace [of env "calls m" "push st m" tr1] tool_thrown(4)
    obtain evs1 where evs1: "tr2 = tr1 @ evs1" "list_all is_tool evs1" by auto
    show ?case
    proof (cases rule: callOpenAI_cases [of env tr "conversationMessages st" True])
      case no_key
      with tool_thrown(2) have "m = no_key_message" by simp
      then have "no_tool_calls m" by (simp add: no_key_message_def)
      with tool_thrown(3) show ?thesis by simp
    next
      case (failed code' reason' data')
      with tool_thrown(2) show ?thesis by simp
    next
      case sent
      show ?thesis
      proof (intro allI impI)
        fix pre
        assume d: "snd (Inl e, tr2) = tr @ pre @ Ev_Complete ms b # Ev_OpenAI_Fetch payload # post"
          and o: "openai_api env (tr @ pre @ [Ev_Complete ms b]) payload = Response code reason data"
        from d tool_thrown(2) sent(1) evs1(1)
        have "Ev_Complete (conversationMessages st) True #
            Ev_OpenAI_Fetch \<lparr>request_messages = map request_message (conversationMessages st),
              request_tools = True\<rparr> # evs1 =
            pre @ Ev_Complete ms b # Ev_OpenAI_Fetch payload # post" by simp
        from pair_position [OF this] tool_events_no_complete [OF evs1(2), of ms b]
        have p: "pre = []" "ms = conversationMessages st" "b = True"
          "payload = \<lparr>request_messages = map request_message (conversationMessages st),
              request_tools = True\<rparr>" by auto
        with o sent(2) assms(3) have False by auto
        then show "post = [] \<and> fst (Inl e, tr2) =
            Inl (Error (''OpenAI API error: '' @ string_of_nat code @ '' - '' @ reason))" ..
      qed
    qed
  next
    case (again i st tr m fr tr1 st2 tr2)
    from run_tool_calls_trace [of env "calls m" "push st m" tr1] again(4)
    obtain evs1 where evs1: "tr2 = tr1 @ evs1" "list_all is_tool evs1" by auto
    from agent_loop_trace [of env "i + 1" st2 tr2]
    obtain evs2 where evs2: "snd (agent_loop env (i + 1) st2 tr2) = tr2 @ evs2" by blast
    show ?case
    proof (cases rule: callOpenAI_cases [of env tr "conversationMessages st" True])
      case no_key
      with again(2) have "m = no_key_message" by simp
      then have "no_tool_calls m" by (simp add: no_key_message_def)
      with again(3) show ?thesis by simp
    next
      case (failed code' reason' data')
      with again(2) show ?thesis by simp
    next
      case sent
      let ?C = "Ev_Complete (conversationMessages st) True"
      let ?F = "Ev_OpenAI_Fetch \<lparr>request_messages = map request_message (conversationMessages st),
              request_tools = True\<rparr>"
      from again(2) sent(1) have tr1: "tr1 = tr @ [?C, ?F]" by simp
      show ?thesis
      proof (intro allI impI)
        fix pre
        assume d: "snd (agent_loop env (i + 1) st2 tr2) =
            tr @ pre @ Ev_Complete ms b # Ev_OpenAI_Fetch payload # post"
          and o: "openai_api env (tr @ pre @ [Ev_Complete ms b]) payload = Response code reason data"
        from d evs2 evs1(1) tr1
        have "?C # ?F # (evs1 @ evs2) = pre @ Ev_Complete ms b # Ev_OpenAI_Fetch payload # post"
          by simp
        from pair_position [OF this]
        consider "pre = []" "ms = conversationMessages st" "b = True"
          "payload = \<lparr>request_messages = map request_message (conversationMessages st),
              request_tools = True\<rparr>"
          | pre' where "pre = ?C # ?F # pre'"
            "evs1 @ evs2 = pre' @ Ev_Complete ms b # Ev_OpenAI_Fetch payload # post"
          by auto
        then show "post = [] \<and> fst (agent_loop env (i + 1) st2 tr2) =
            Inl (Error (''OpenAI API error: '' @ string_of_nat code @ '' - '' @ reason))"
        proof cases
          case 1
          with o sent(2) assms(3) have False by auto
          then show ?thesis ..
        next
          case 2
          from split_after [OF 2(2) tool_events_no_complete [OF evs1(2)]]
          obtain pre2 where pre2: "pre' = evs1 @ pre2"
            "evs2 = pre2 @ Ev_Complete ms b # Ev_OpenAI_Fetch payload # post" by blast
          have eq: "tr @ pre = tr2 @ pre2" using 2(1) pre2(1) evs1(1) tr1 by simp
          have "snd (agent_loop env (i + 1) st2 tr2) =
              tr2 @ pre2 @ Ev_Complete ms b # Ev_OpenAI_Fetch payload # post"
            using evs2 pre2(2) by simp
          moreover have "openai_api env (tr2 @ pre2 @ [Ev_Complete ms b]) payload =
              Response code reason data"
            using o eq by (metis append_assoc)
          ultimately show ?thesis using again(5) by blast
        qed
      qed
    qed
  qed
  with assms(1,2) show ?thesis by blast
qed

lemma split_before:
  "xs @ ys = pre @ c # rest \<Longrightarrow> c \<notin> set ys \<Longrightarrow> \<exists>rest'. xs = pre @ c # rest' \<and> rest = rest' @ ys"
proof (induction xs arbitrary: pre)
  case Nil
  then show ?case by auto
next
  case (Cons x xs)
  show ?case
  proof (cases pre)
    case Nil
    with Cons.prems show ?thesis by simp
  next
    case (Cons p pre')
    with Cons.prems have "xs @ ys = pre' @ c # rest" and "p = x" by simp_all
    from Cons.IH [OF this(1) Cons.prems(2)] Cons \<open>p = x\<close> show ?thesis by simp
  qed
qed

lemma no_complete_events:
  "list_all (\<lambda>e. \<not> is_complete e) evs \<Longrightarrow> Ev_Complete ms b \<notin> set evs"
  by (induction evs) auto

lemma runAgent_stops_at_failure:
  assumes "snd (runAgent env tr messages) = tr @ pre @ Ev_Complete ms b # Ev_OpenAI_Fetch payload # post"
    and "openai_api env (tr @ pre @ [Ev_Complete ms b]) payload = Response code reason data"
    and "\<not> ok code"
  shows "post = [] \<and>
    fst (runAgent env tr messages) =
      Inl (Error (''OpenAI API error: '' @ string_of_nat code @ '' - '' @ reason))"
proof -
  let ?st = "\<lparr>conversationMessages = systemMessage # messages, newMessages = []\<rparr>"
  have s: "snd (runAgent env tr messages) = snd (agent_loop env 0 ?st tr)"
    by (simp add: runAgent_def split: prod.splits sum.splits)
  from agent_loop_stops_at_failure [OF assms(1) [unfolded s] assms(2,3)]
  have l: "post = []" "fst (agent_loop env 0 ?st tr) =
      Inl (Error (''OpenAI API error: '' @ string_of_nat code @ '' - '' @ reason))" by simp_all
  obtain r tr1 where a: "agent_loop env 0 ?st tr = (r, tr1)"
    by (cases "agent_loop env 0 ?st tr")
  with l(2) have "r = Inl (Error (''OpenAI API error: '' @ string_of_nat code @ '' - '' @ reason))"
    by simp
  with a l(1) show ?thesis by (simp add: runAgent_def)
qed

subsection \<open>What throws while tools are executed\<close>

lemma executeTool_unknown:
  "name \<noteq> ''web_search'' \<Longrightarrow>
   executeTool env tr name args = (Inr (''Unknown tool: '' @ name), tr @ [Ev_Tool name args])"
  by (simp add: executeTool_def)

lemma executeTool_throws_only_on_null:
  "executeTool env tr name args = (Inl e, tr') \<Longrightarrow> name = ''web_search'' \<and> args = JNull"
  by (cases args) (auto simp: executeTool_def Let_def split: if_splits prod.splits)

lemma run_tool_calls_unknown:
  assumes "fn_name toolCall \<noteq> ''web_search''" and "JSON_parse env (fn_arguments toolCall) = Inr args"
  shows "run_tool_calls env (toolCall # rest) st tr =
    run_tool_calls env rest (push st (toolMessage toolCall (''Unknown tool: '' @ fn_name toolCall)))
      (tr @ [Ev_Tool (fn_name toolCall) args])"
  using assms by (simp add: executeTool_unknown)

text \<open>The only faults that leave the tool loop: \<open>JSON.parse\<close> rejects the arguments of
  a call, or the arguments of a \<open>web_search\<close> call parse to \<open>null\<close>.\<close>

lemma run_tool_calls_throws:
  "run_tool_calls env tcs st tr = (Inl e, tr') \<Longrightarrow>
   \<exists>toolCall \<in> set tcs. JSON_parse env (fn_arguments toolCall) = Inl e \<or>
      (fn_name toolCall = ''web_search'' \<and> JSON_parse env (fn_arguments toolCall) = Inr JNull)"
proof (induction tcs arbitrary: st tr)
  case Nil
  then show ?case by simp
next
  case (Cons tc tcs)
  show ?case
  proof (cases "JSON_parse env (fn_arguments tc)")
    case (Inl e')
    with Cons.prems show ?thesis by simp
  next
    case (Inr args)
    obtain r tr1 where ex: "executeTool env tr (fn_name tc) args = (r, tr1)"
      by (cases "executeTool env tr (fn_name tc) args")
    show ?thesis
    proof (cases r)
      case (Inl e')
      with ex executeTool_throws_only_on_null [of env tr "fn_name tc" args e' tr1] Inr
      show ?thesis by simp
    next
      case r: (Inr result)
      with Cons.prems Inr ex
      have "run_tool_calls env tcs (push st (toolMessage tc result)) tr1 = (Inl e, tr')" by simp
      from Cons.IH [OF this] show ?thesis by auto
    qed
  qed
qed

subsection \<open>The rows the handler inserts\<close>

lemma save_all_events:
  "save_all tr cid msgs = tr @ map (\<lambda>msg. Ev_Insert_Message (message_row cid msg)) msgs"
  by (induction msgs arbitrary: tr) simp_all

lemma inserted_rows_append:
  "inserted_rows (tr @ evs) = inserted_rows tr @ inserted_rows evs"
  by (induction tr rule: inserted_rows.induct) simp_all


lemma tool_events_no_rows:
  "list_all is_tool evs \<Longrightarrow> inserted_rows evs = []"
proof (induction evs)
  case Nil
  show ?case by simp
next
  case (Cons e evs)
  then show ?case by (cases e) simp_all
qed

lemma agent_loop_no_rows:
  "\<exists>evs. snd (agent_loop env i st tr) = tr @ evs \<and> inserted_rows evs = []"
proof -
  let ?P = "\<lambda>(i::nat) (st::transcript) tr (res::(js_error + transcript) \<times> event list).
     \<exists>evs. snd res = tr @ evs \<and> inserted_rows evs = []"
  have "?P i st tr (agent_loop env i st tr)"
  proof (induction rule: agent_loop_rule [where P = ?P])
    case (left i st tr)
    show ?case by simp
  next
    case (thrown i st tr e tr1)
    with callOpenAI_trace [of env tr "conversationMessages st" True]
    show ?case by auto
  next
    case (answer i st tr m fr tr1)
    with callOpenAI_trace [of env tr "conversationMessages st" True]
    show ?case by auto
  next
    case (tool_thrown i st tr m fr tr1 e tr2)
    from run_tool_calls_trace [of env "calls m" "push st m" tr1] tool_thrown(4)
    obtain evs where "tr2 = tr1 @ evs" "list_all is_tool evs" by auto
    with tool_events_no_rows [of evs]
      callOpenAI_trace [of env tr "conversationMessages st" True] tool_thrown(2)
    show ?case by (auto simp: inserted_rows_append)
  next
    case (again i st tr m fr tr1 st2 tr2)
    from run_tool_calls_trace [of env "calls m" "push st m" tr1] again(4)
    obtain evs where evs: "tr2 = tr1 @ evs" "list_all is_tool evs" by auto
    from again(5) obtain evs' where evs': "snd (agent_loop env (i + 1) st2 tr2) = tr2 @ evs'"
      "inserted_rows evs' = []" by blast
    from callOpenAI_trace [of env tr "conversationMessages st" True] again(2)
    obtain evs0 where evs0: "tr1 = tr @ evs0" "inserted_rows evs0 = []" by auto
    have "snd (agent_loop env (i + 1) st2 tr2) = tr @ (evs0 @ evs @ evs')"
      using evs(1) evs'(1) evs0(1) by simp
    moreover have "inserted_rows (evs0 @ evs @ evs') = []"
      using evs0(2) evs'(2) tool_events_no_rows [OF evs(2)] by (simp add: inserted_rows_append)
    ultimately show ?case by blast
  qed
  then show ?thesis .
qed

lemma runAgent_no_rows:
  "\<exists>evs. snd (runAgent env tr messages) = tr @ evs \<and> inserted_rows evs = []"
proof -
  let ?st = "\<lparr>conversationMessages = systemMessage # messages, newMessages = []\<rparr>"
  have "snd (runAgent env tr messages) = snd (agent_loop env 0 ?st tr)"
    by (simp add: runAgent_def split: prod.splits sum.splits)
  with agent_loop_no_rows [of env 0 ?st tr] show ?thesis by simp
qed

text \<open>The ways through the handler's \<open>try\<close> block: it throws before the agent runs
  (with at most the user's row inserted), or it reaches \<open>runAgent\<close> with the history the
  store returned.\<close>

lemma turn_cases [case_names early agent]:
  assumes early: "\<And>e evs. turn env tr req = (Inl e, tr @ evs) \<Longrightarrow>
      \<forall>r \<in> set (inserted_rows evs). row_role r = User \<Longrightarrow> list_all (\<lambda>e. \<not> is_complete e) evs \<Longrightarrow> thesis"
    and agent: "\<And>rq cid pre history.
      req_json req = Inr rq \<Longrightarrow>
      inserted_rows pre = [] \<Longrightarrow>
      select_history env (tr @ pre @ [Ev_Insert_Message (user_row cid (message rq))]) cid = Inr history \<Longrightarrow>
      turn env tr req =
        (case runAgent env
           (tr @ pre @ [Ev_Insert_Message (user_row cid (message rq)), Ev_Select_History cid]) history of
           (Inl error, tr4) \<Rightarrow> (Inl error, tr4)
         | (Inr agentMessages, tr4) \<Rightarrow>
             (Inr \<lparr>status = 200, body = Turn_Response cid (response_text agentMessages)\<rparr>,
              save_all tr4 cid agentMessages)) \<Longrightarrow>
      list_all (\<lambda>e. \<not> is_complete e) pre \<Longrightarrow> thesis"
  shows thesis
proof (cases "req_json req")
  case (Inl e)
  then have "turn env tr req = (Inl e, tr @ [])" by (simp add: turn_def)
  then show ?thesis by (rule early) simp_all
next
  case (Inr rq)
  show ?thesis
  proof (cases "createClient env")
    case (Some e)
    with Inr have "turn env tr req = (Inl e, tr @ [])" by (simp add: turn_def)
    then show ?thesis by (rule early) simp_all
  next
    case None
    define conv where "conv = (if falsy (conversationId rq)
            then (insert_conversation env tr (take 50 (message rq)),
                  tr @ [Ev_Insert_Conversation (take 50 (message rq))])
            else (Inr (case conversationId rq of None \<Rightarrow> [] | Some c \<Rightarrow> c), tr))"
    have t: "turn env tr req = (case conv of
        (Inl convError, tr1) \<Rightarrow> (Inl convError, tr1)
      | (Inr actualConversationId, tr1) \<Rightarrow>
     (let tr2 = tr1 @ [Ev_Insert_Message (user_row actualConversationId (message rq))] in
      case insert_message env tr1 (user_row actualConversationId (message rq)) of
        Some userMsgError \<Rightarrow> (Inl userMsgError, tr2)
      | None \<Rightarrow>
     (let tr3 = tr2 @ [Ev_Select_History actualConversationId] in
      case select_history env tr2 actualConversationId of
        Inl historyError \<Rightarrow> (Inl historyError, tr3)
      | Inr history \<Rightarrow>
     (case runAgent env tr3 history of
        (Inl error, tr4) \<Rightarrow> (Inl error, tr4)
      | (Inr agentMessages, tr4) \<Rightarrow>
          (Inr \<lparr>status = 200,
                body = Turn_Response actualConversationId (response_text agentMessages)\<rparr>,
           save_all tr4 actualConversationId agentMessages)))))"
      using Inr None by (simp add: turn_def conv_def)
    obtain c tr1 where c: "conv = (c, tr1)" by (cases conv)
    then obtain pre where pre: "tr1 = tr @ pre" "inserted_rows pre = []"
      "list_all (\<lambda>e. \<not> is_complete e) pre"
      by (cases "falsy (conversationId rq)") (auto simp: conv_def)
    show ?thesis
    proof (cases c)
      case (Inl e)
      with t c pre have "turn env tr req = (Inl e, tr @ pre)" by simp
      then show ?thesis by (rule early) (simp_all add: pre)
    next
      case cid: (Inr cid)
      let ?row = "user_row cid (message rq)"
      have user: "row_role ?row = User" by (simp add: user_row_def)
      show ?thesis
      proof (cases "insert_message env tr1 ?row")
        case (Some e)
        with t c cid pre(1) have "turn env tr req = (Inl e, tr @ (pre @ [Ev_Insert_Message ?row]))"
          by (simp add: Let_def)
        then show ?thesis by (rule early) (simp_all add: pre user inserted_rows_append)
      next
        case None
        show ?thesis
        proof (cases "select_history env (tr1 @ [Ev_Insert_Message ?row]) cid")
          case (Inl e)
          with t c cid None pre(1)
          have "turn env tr req = (Inl e, tr @ (pre @ [Ev_Insert_Message ?row, Ev_Select_History cid]))"
            by (simp add: Let_def)
          then show ?thesis by (rule early) (simp_all add: pre user inserted_rows_append)
        next
          case (Inr history)
          show ?thesis
          proof (rule agent [of rq pre cid history])
            show "req_json req = Inr rq" by fact
            show "inserted_rows pre = []" by fact
            show "select_history env (tr @ pre @ [Ev_Insert_Message ?row]) cid = Inr history"
              using Inr pre(1) by simp
            show "turn env tr req =
              (case runAgent env (tr @ pre @ [Ev_Insert_Message ?row, Ev_Select_History cid]) history of
                 (Inl error, tr4) \<Rightarrow> (Inl error, tr4)
               | (Inr agentMessages, tr4) \<Rightarrow>
                   (Inr \<lparr>status = 200, body = Turn_Response cid (response_text agentMessages)\<rparr>,
                    save_all tr4 cid agentMessages))"
              using t c cid None Inr pre(1) by (simp add: Let_def)
            show "list_all (\<lambda>e. \<not> is_complete e) pre" by fact
          qed
        qed
      qed
    qed
  qed
qed

lemma failed_turn_rows:
  assumes "fst (turn env tr req) = Inl e"
  shows "\<exists>evs. snd (turn env tr req) = tr @ evs \<and> (\<forall>r \<in> set (inserted_rows evs). row_role r = User)"
proof (cases rule: turn_cases [of env tr req])
  case (early e' evs)
  then show ?thesis by auto
next
  case (agent rq cid pre history)
  let ?tr3 = "tr @ pre @ [Ev_Insert_Message (user_row cid (message rq)), Ev_Select_History cid]"
  from runAgent_no_rows [of env ?tr3 history] obtain evs4 where
    evs4: "snd (runAgent env ?tr3 history) = ?tr3 @ evs4" "inserted_rows evs4 = []" by blast
  obtain r tr4 where run: "runAgent env ?tr3 history = (r, tr4)"
    by (cases "runAgent env ?tr3 history")
  from assms agent(4) run obtain e' where r: "r = Inl e'" by (cases r) simp_all
  have "snd (turn env tr req) =
      tr @ (pre @ [Ev_Insert_Message (user_row cid (message rq)), Ev_Select_History cid] @ evs4)"
    using agent(4) run r evs4(1) by simp
  moreover have "inserted_rows (pre @ [Ev_Insert_Message (user_row cid (message rq)),
      Ev_Select_History cid] @ evs4) = [user_row cid (message rq)]"
    using agent(2) evs4(2) by (simp add: inserted_rows_append)
  moreover have "row_role (user_row cid (message rq)) = User" by (simp add: user_row_def)
  ultimately show ?thesis by simp
qed


text \<open>A provider request of a turn that is answered with a non-success status is the
  last event of the turn, and the turn throws the error of that answer.\<close>

lemma turn_stops_at_failure:
  assumes d: "snd (turn env tr req) = tr @ pre @ Ev_Complete ms b # Ev_OpenAI_Fetch payload # post"
    and o: "openai_api env (tr @ pre @ [Ev_Complete ms b]) payload = Response code reason data"
    and n: "\<not> ok code"
  shows "post = [] \<and>
    fst (turn env tr req) =
      Inl (Error (''OpenAI API error: '' @ string_of_nat code @ '' - '' @ reason))"
proof (cases rule: turn_cases [of env tr req])
  case (early e evs)
  with d have "evs = pre @ Ev_Complete ms b # Ev_OpenAI_Fetch payload # post" by simp
  with no_complete_events [OF early(3), of ms b] show ?thesis by simp
next
  case (agent rq cid pre0 history)
  let ?head = "pre0 @ [Ev_Insert_Message (user_row cid (message rq)), Ev_Select_History cid]"
  let ?tr3 = "tr @ ?head"
  let ?C = "Ev_Complete ms b"
  let ?F = "Ev_OpenAI_Fetch payload"
  have head: "?C \<notin> set ?head" using no_complete_events [OF agent(5), of ms b] by simp
  obtain r tr4 where run: "runAgent env ?tr3 history = (r, tr4)"
    by (cases "runAgent env ?tr3 history")
  from runAgent_no_rows [of env ?tr3 history] run
  obtain evs4 where evs4: "tr4 = ?tr3 @ evs4" by auto
  have t: "turn env tr req =
      (case r of Inl error \<Rightarrow> (Inl error, tr4)
       | Inr agentMessages \<Rightarrow>
           (Inr \<lparr>status = 200, body = Turn_Response cid (response_text agentMessages)\<rparr>,
            save_all tr4 cid agentMessages))"
    using agent(4) run by (cases r) simp_all
  show ?thesis
  proof (cases r)
    case (Inl e)
    with t evs4 d have "?head @ evs4 = pre @ ?C # ?F # post" by simp
    from split_after [OF this head]
    obtain pre2 where pre2: "pre = ?head @ pre2" "evs4 = pre2 @ ?C # ?F # post" by blast
    have "snd (runAgent env ?tr3 history) = ?tr3 @ pre2 @ ?C # ?F # post"
      using run evs4 pre2(2) by simp
    moreover have "openai_api env (?tr3 @ pre2 @ [?C]) payload = Response code reason data"
      using o pre2(1) by simp
    ultimately have "post = [] \<and> fst (runAgent env ?tr3 history) =
        Inl (Error (''OpenAI API error: '' @ string_of_nat code @ '' - '' @ reason))"
      using n by (rule runAgent_stops_at_failure)
    with run Inl t show ?thesis by simp
  next
    case (Inr out)
    let ?saves = "map (\<lambda>msg. Ev_Insert_Message (message_row cid msg)) out"
    have saves: "?C \<notin> set ?saves" "?F \<notin> set ?saves" by auto
    from Inr t evs4 d have "?head @ (evs4 @ ?saves) = pre @ ?C # ?F # post"
      by (simp add: save_all_events)
    from split_after [OF this head]
    obtain pre2 where pre2: "pre = ?head @ pre2" "evs4 @ ?saves = pre2 @ ?C # ?F # post" by blast
    from split_before [OF pre2(2) saves(1)]
    obtain rest where rest: "evs4 = pre2 @ ?C # rest" "?F # post = rest @ ?saves" by blast
    from rest(2) saves(2) obtain post' where post': "rest = ?F # post'"
      by (cases rest) auto
    have "snd (runAgent env ?tr3 history) = ?tr3 @ pre2 @ ?C # ?F # post'"
      using run evs4 rest(1) post' by simp
    moreover have "openai_api env (?tr3 @ pre2 @ [?C]) payload = Response code reason data"
      using o pre2(1) by simp
    ultimately have "post' = [] \<and> fst (runAgent env ?tr3 history) =
        Inl (Error (''OpenAI API error: '' @ string_of_nat code @ '' - '' @ reason))"
      using n by (rule runAgent_stops_at_failure)
    with run Inr show ?thesis by simp
  qed
qed




section \<open>The claims\<close>

text \<open>
  C1. The loop runs its body at most five times. \<open>runAgent\<close> is a total function here
  (the loop is defined with a measure that decreases, five minus \<open>iterations\<close>, and every
  answer of the outside world is taken to arrive), and the events one run adds to the
  trace hold at most five calls of the completion client and at most five requests sent
  to the provider.
\<close>

theorem runAgent_bounded:
  "\<exists>evs. snd (runAgent env tr messages) = tr @ evs \<and>
     length (filter is_complete evs) \<le> 5 \<and> length (filter is_fetch evs) \<le> 5"
proof -
  let ?st = "\<lparr>conversationMessages = systemMessage # messages, newMessages = []\<rparr>"
  from agent_loop_trace [of env 0 ?st tr] obtain evs where
    evs: "snd (agent_loop env 0 ?st tr) = tr @ evs"
    "length (filter is_complete evs) + 0 \<le> max 0 maxIterations"
    "length (filter is_fetch evs) \<le> length (filter is_complete evs)" by blast
  have "snd (runAgent env tr messages) = snd (agent_loop env 0 ?st tr)"
    by (simp add: runAgent_def split: prod.splits sum.splits)
  with evs show ?thesis by (auto simp: maxIterations_def)
qed

theorem runAgent_bounded_witness:
  "length (filter is_complete (snd (runAgent looping_env [] [user_message paris_question]))) = 5 \<and>
   (\<exists>evs. snd (runAgent looping_env [] [user_message paris_question]) = [] @ evs \<and>
     length (filter is_complete evs) \<le> 5 \<and> length (filter is_fetch evs) \<le> 5)"
proof
  show "length (filter is_complete (snd (runAgent looping_env [] [user_message paris_question]))) = 5"
    by code_simp
  show "\<exists>evs. snd (runAgent looping_env [] [user_message paris_question]) = [] @ evs \<and>
     length (filter is_complete evs) \<le> 5 \<and> length (filter is_fetch evs) \<le> 5"
    using runAgent_bounded [of looping_env "[]" "[user_message paris_question]"] .
qed

text \<open>
  C2. Every output of \<open>runAgent\<close> is well paired: a sequence of blocks, each an assistant
  message followed by one tool message per tool call of that message, in the order of
  the calls, each with the id of its call as \<open>tool_call_id\<close>.
\<close>

theorem tool_messages_paired:
  "runAgent env tr messages = (Inr out, tr') \<Longrightarrow> well_paired out"
  using runAgent_output by blast

theorem tool_messages_paired_witness:
  "map role (projr (fst (runAgent stub_env [] [user_message paris_question]))) = [Assistant, Tool, Assistant] \<and>
   well_paired (projr (fst (runAgent stub_env [] [user_message paris_question])))"
proof -
  have run: "runAgent stub_env [] [user_message paris_question] =
     (Inr (projr (fst (runAgent stub_env [] [user_message paris_question]))),
      snd (runAgent stub_env [] [user_message paris_question]))"
    by code_simp
  have "map role (projr (fst (runAgent stub_env [] [user_message paris_question]))) = [Assistant, Tool, Assistant]"
    by code_simp
  with tool_messages_paired [OF run] show ?thesis by simp
qed

text \<open>
  C3. If the first completion carries no tool calls (the list is absent or empty), the
  output of \<open>runAgent\<close> is that one assistant message, and the run made exactly one call
  of the completion client.
\<close>

theorem no_tool_calls_one_iteration:
  assumes "callOpenAI env tr (systemMessage # messages) True = (Inr (m, fr), tr1)"
    and "tool_calls m = None \<or> tool_calls m = Some []"
  shows "runAgent env tr messages = (Inr [m], tr1) \<and>
    length (filter is_complete tr1) = length (filter is_complete tr) + 1"
proof -
  from assms(2) have "no_tool_calls m" by auto
  with assms(1) have "runAgent env tr messages = (Inr [m], tr1)"
    by (simp add: runAgent_def agent_loop.simps [of env 0] maxIterations_def)
  moreover from callOpenAI_trace [of env tr "systemMessage # messages" True] assms(1)
  have "length (filter is_complete tr1) = length (filter is_complete tr) + 1" by auto
  ultimately show ?thesis by simp
qed

theorem no_tool_calls_one_iteration_witness:
  "runAgent plain_env [] [user_message ''Hello''] =
     (Inr [\<lparr>role = Assistant, content = ''Hi there!'', tool_calls = None, tool_call_id = None\<rparr>],
      [Ev_Complete [systemMessage, user_message ''Hello''] True,
       Ev_OpenAI_Fetch \<lparr>request_messages = [systemMessage, user_message ''Hello''], request_tools = True\<rparr>])"
proof -
  have c: "callOpenAI plain_env [] (systemMessage # [user_message ''Hello'']) True =
     (Inr (\<lparr>role = Assistant, content = ''Hi there!'', tool_calls = None, tool_call_id = None\<rparr>, ''stop''),
      [Ev_Complete [systemMessage, user_message ''Hello''] True,
       Ev_OpenAI_Fetch \<lparr>request_messages = [systemMessage, user_message ''Hello''], request_tools = True\<rparr>])"
    by code_simp
  from no_tool_calls_one_iteration [OF c] show ?thesis by simp
qed

text \<open>
  C4. Tool faults do not all stay inside the tool. \<open>webSearch\<close> returns text whatever the
  search provider does, and an unregistered name gives text, but \<open>JSON.parse\<close> of the
  call's arguments runs in the loop outside any \<open>try\<close>, and \<open>args.query\<close> is read
  before \<open>webSearch\<close> is entered. With arguments that are cut off, \<open>runAgent\<close> throws the
  SyntaxError and the handler answers 500; with the arguments \<open>null\<close>, \<open>executeTool\<close>
  itself throws a TypeError.
\<close>

theorem malformed_arguments_abort_turn:
  "fst (runAgent cut_env [] [user_message paris_question]) =
     Inl (SyntaxError ''Unterminated string in JSON at position 24 (line 1 column 25)'') \<and>
   fst (serve cut_env [] first_turn) =
     \<lparr>status = 500, body = Error_Response ''Unterminated string in JSON at position 24 (line 1 column 25)''\<rparr> \<and>
   fst (executeTool stub_env [] ''web_search'' JNull) =
     Inl (TypeError (''Cannot read properties of null (reading '' @ [CHR 0x27] @ ''query'' @ [CHR 0x27] @ '')''))"
  by code_simp

text \<open>
  C5, as the code has it. When a request to the completion provider is answered with
  a non-success status, that request is the last event of the run and \<open>runAgent\<close> throws
  \<open>OpenAI API error: <status> - <body>\<close>: it returns no message, whatever the loop had
  collected before. The same holds of the handler: when a provider request of a turn is
  answered with a non-success status, nothing happens after it, the response has status
  500 and that error's message, and the only row the turn has inserted is the user's.
  Any turn that throws is answered with status 500 and the message of what was thrown,
  and has inserted no row but the user's.
\<close>

theorem provider_failure_aborts:
  "(snd (runAgent env tr messages) = tr @ pre @ Ev_Complete ms b # Ev_OpenAI_Fetch payload # post \<longrightarrow>
      openai_api env (tr @ pre @ [Ev_Complete ms b]) payload = Response code reason data \<longrightarrow>
      \<not> ok code \<longrightarrow>
      post = [] \<and>
      fst (runAgent env tr messages) =
        Inl (Error (''OpenAI API error: '' @ string_of_nat code @ '' - '' @ reason))) \<and>
   (req_method req \<noteq> ''OPTIONS'' \<longrightarrow>
      snd (serve env tr req) = tr @ pre' @ Ev_Complete ms' b' # Ev_OpenAI_Fetch payload' # post' \<longrightarrow>
      openai_api env (tr @ pre' @ [Ev_Complete ms' b']) payload' = Response code' reason' data' \<longrightarrow>
      \<not> ok code' \<longrightarrow>
      post' = [] \<and>
      fst (serve env tr req) =
        \<lparr>status = 500,
         body = Error_Response (''OpenAI API error: '' @ string_of_nat code' @ '' - '' @ reason')\<rparr> \<and>
      (\<forall>r \<in> set (inserted_rows (pre' @ [Ev_Complete ms' b', Ev_OpenAI_Fetch payload'])).
         row_role r = User)) \<and>
   (req_method req \<noteq> ''OPTIONS'' \<longrightarrow> fst (turn env tr req) = Inl e \<longrightarrow>
      fst (serve env tr req) = \<lparr>status = 500, body = Error_Response (message_of e)\<rparr> \<and>
      (\<exists>evs. snd (serve env tr req) = tr @ evs \<and> (\<forall>r \<in> set (inserted_rows evs). row_role r = User)))"
proof (intro conjI impI)
  assume "snd (runAgent env tr messages) = tr @ pre @ Ev_Complete ms b # Ev_OpenAI_Fetch payload # post"
    and "openai_api env (tr @ pre @ [Ev_Complete ms b]) payload = Response code reason data"
    and "\<not> ok code"
  from runAgent_stops_at_failure [OF this]
  show "post = []" and "fst (runAgent env tr messages) =
        Inl (Error (''OpenAI API error: '' @ string_of_nat code @ '' - '' @ reason))"
    by simp_all
next
  assume m: "req_method req \<noteq> ''OPTIONS''"
    and d: "snd (serve env tr req) = tr @ pre' @ Ev_Complete ms' b' # Ev_OpenAI_Fetch payload' # post'"
    and o: "openai_api env (tr @ pre' @ [Ev_Complete ms' b']) payload' = Response code' reason' data'"
    and n: "\<not> ok code'"
  from m have s: "snd (serve env tr req) = snd (turn env tr req)"
    by (simp add: serve_def split: prod.splits sum.splits)
  from turn_stops_at_failure [OF d [unfolded s] o n]
  have p: "post' = []" and f: "fst (turn env tr req) =
      Inl (Error (''OpenAI API error: '' @ string_of_nat code' @ '' - '' @ reason'))" by simp_all
  from p show "post' = []" .
  from f obtain tr1 where "turn env tr req =
      (Inl (Error (''OpenAI API error: '' @ string_of_nat code' @ '' - '' @ reason')), tr1)"
    by (cases "turn env tr req") simp
  with m show "fst (serve env tr req) =
        \<lparr>status = 500,
         body = Error_Response (''OpenAI API error: '' @ string_of_nat code' @ '' - '' @ reason')\<rparr>"
    by (simp add: serve_def)
  from failed_turn_rows [OF f] obtain evs where
    evs: "snd (turn env tr req) = tr @ evs" "\<forall>r \<in> set (inserted_rows evs). row_role r = User"
    by blast
  from evs(1) d s p have "evs = pre' @ [Ev_Complete ms' b', Ev_OpenAI_Fetch payload']" by simp
  with evs(2)
  show "\<forall>r \<in> set (inserted_rows (pre' @ [Ev_Complete ms' b', Ev_OpenAI_Fetch payload'])).
         row_role r = User" by simp
next
  assume m: "req_method req \<noteq> ''OPTIONS''" and f: "fst (turn env tr req) = Inl e"
  from f obtain tr1 where t: "turn env tr req = (Inl e, tr1)" by (cases "turn env tr req") simp
  with m show "fst (serve env tr req) = \<lparr>status = 500, body = Error_Response (message_of e)\<rparr>"
    by (simp add: serve_def)
  from m t have "snd (serve env tr req) = snd (turn env tr req)" by (simp add: serve_def)
  with failed_turn_rows [OF f]
  show "\<exists>evs. snd (serve env tr req) = tr @ evs \<and> (\<forall>r \<in> set (inserted_rows evs). row_role r = User)"
    by simp
qed

theorem provider_failure_aborts_witness:
  "length (filter is_execution (snd (runAgent flaky_env [] [user_message paris_question]))) = 1 \<and>
   fst (runAgent flaky_env [] [user_message paris_question]) =
     Inl (Error ''OpenAI API error: 500 - overloaded'') \<and>
   fst (serve flaky_env [] first_turn) =
     \<lparr>status = 500, body = Error_Response ''OpenAI API error: 500 - overloaded''\<rparr> \<and>
   inserted_rows (take 7 (snd (serve flaky_env [] first_turn)) @
        [Ev_Complete searched_messages True,
         Ev_OpenAI_Fetch \<lparr>request_messages = map request_message searched_messages,
                           request_tools = True\<rparr>]) = [user_row ''conv-1'' paris_question] \<and>
   (\<exists>evs. snd (serve flaky_env [] first_turn) = [] @ evs \<and>
      (\<forall>r \<in> set (inserted_rows evs). row_role r = User))"
proof -
  let ?run = "runAgent flaky_env [] [user_message paris_question]"
  let ?serve = "serve flaky_env [] first_turn"
  let ?payload = "\<lparr>request_messages = map request_message searched_messages, request_tools = True\<rparr>"
  have x: "length (filter is_execution (snd ?run)) = 1" by code_simp
  have d: "snd ?run = [] @ take 4 (snd ?run) @
      Ev_Complete searched_messages True # Ev_OpenAI_Fetch ?payload # []" by code_simp
  have a: "openai_api flaky_env ([] @ take 4 (snd ?run) @ [Ev_Complete searched_messages True]) ?payload =
      Response 500 ''overloaded'' (Inr [])" by code_simp
  have d': "snd ?serve = [] @ take 7 (snd ?serve) @
      Ev_Complete searched_messages True # Ev_OpenAI_Fetch ?payload # []" by code_simp
  have a': "openai_api flaky_env ([] @ take 7 (snd ?serve) @ [Ev_Complete searched_messages True]) ?payload =
      Response 500 ''overloaded'' (Inr [])" by code_simp
  have c: "\<not> ok 500" by code_simp
  have m: "req_method first_turn \<noteq> ''OPTIONS''" by code_simp
  have t: "fst (turn flaky_env [] first_turn) = Inl (Error ''OpenAI API error: 500 - overloaded'')"
    by code_simp
  have s: "''OpenAI API error: '' @ string_of_nat 500 @ '' - '' @ ''overloaded'' =
      ''OpenAI API error: 500 - overloaded''" by code_simp
  have rows: "inserted_rows (take 7 (snd ?serve) @
      [Ev_Complete searched_messages True, Ev_OpenAI_Fetch ?payload]) =
      [user_row ''conv-1'' paris_question]" by code_simp
  from provider_failure_aborts [of flaky_env "[]" "[user_message paris_question]"
      "take 4 (snd ?run)" searched_messages True ?payload "[]" 500 "''overloaded''" "Inr []"
      first_turn "take 7 (snd ?serve)" searched_messages True ?payload "[]" 500 "''overloaded''" "Inr []"
      "Error ''OpenAI API error: 500 - overloaded''"] d a d' a' c m t s x rows
  show ?thesis by simp
qed

text \<open>
  C5 as stated fails: the provider asks for a search and then answers 500. The run has
  made two completion calls and collected an assistant and a tool message, yet it returns
  only the error, and the handler stores the user's row alone.
\<close>

theorem provider_failure_discards_output:
  "fst (runAgent flaky_env [] [user_message paris_question]) =
     Inl (Error ''OpenAI API error: 500 - overloaded'') \<and>
   length (filter is_complete (snd (runAgent flaky_env [] [user_message paris_question]))) = 2 \<and>
   fst (serve flaky_env [] first_turn) =
     \<lparr>status = 500, body = Error_Response ''OpenAI API error: 500 - overloaded''\<rparr> \<and>
   inserted_rows (snd (serve flaky_env [] first_turn)) = [user_row ''conv-1'' paris_question]"
  by code_simp

text \<open>
  C6. Without a completion credential (absent or empty) \<open>callOpenAI\<close> throws nothing: it
  returns the fixed diagnostic message with finish reason \<open>stop\<close> and sends no request.
  The output of \<open>runAgent\<close> is then that one message after one call of the completion
  client, with no tool executed.
\<close>

theorem missing_key_diagnostic:
  assumes "OPENAI_API_KEY env = None \<or> OPENAI_API_KEY env = Some []"
  shows "callOpenAI env tr ms b = (Inr (no_key_message, ''stop''), tr @ [Ev_Complete ms b]) \<and>
    runAgent env tr messages = (Inr [no_key_message], tr @ [Ev_Complete (systemMessage # messages) True]) \<and>
    filter is_tool (snd (runAgent env tr messages)) = filter is_tool tr \<and>
    filter is_fetch (snd (runAgent env tr messages)) = filter is_fetch tr"
proof -
  from assms have f: "falsy (OPENAI_API_KEY env)" by auto
  then have c: "\<And>ms b. callOpenAI env tr ms b = (Inr (no_key_message, ''stop''), tr @ [Ev_Complete ms b])"
    by (simp add: callOpenAI_def)
  have "no_tool_calls no_key_message" by (simp add: no_key_message_def)
  with c have "runAgent env tr messages =
      (Inr [no_key_message], tr @ [Ev_Complete (systemMessage # messages) True])"
    by (simp add: runAgent_def agent_loop.simps [of env 0] maxIterations_def)
  with c show ?thesis by simp
qed

theorem missing_key_diagnostic_witness:
  "fst (runAgent no_key_env [] [user_message paris_question]) =
     Inr [\<lparr>role = Assistant,
           content = ''Error: OPENAI_API_KEY not configured. Please add your OpenAI API key to secrets.'',
           tool_calls = None, tool_call_id = None\<rparr>] \<and>
   filter is_tool (snd (runAgent no_key_env [] [user_message paris_question])) = []"
proof -
  have k: "OPENAI_API_KEY no_key_env = None \<or> OPENAI_API_KEY no_key_env = Some []"
    by (simp add: no_key_env_def)
  from missing_key_diagnostic [OF k, of "[]" "[]" True "[user_message paris_question]"]
  show ?thesis by (simp add: no_key_message_def)
qed

text \<open>
  C7. An unregistered tool whose arguments were cut off: \<open>JSON.parse\<close> throws before
  \<open>executeTool\<close> is called, no tool event occurs, \<open>runAgent\<close> throws and the handler
  answers 500. (When the arguments parse, \<open>executeTool_unknown\<close> and
  \<open>run_tool_calls_unknown\<close> give the text \<open>Unknown tool: <name>\<close> and the loop goes on.)
\<close>

theorem unknown_tool_malformed_arguments_abort_turn:
  "fst (runAgent calculator_env [] [user_message ''What is 2 + 2?'']) =
     Inl (SyntaxError ''Unterminated string in JSON at position 24 (line 1 column 25)'') \<and>
   filter is_tool (snd (runAgent calculator_env [] [user_message ''What is 2 + 2?''])) = [] \<and>
   fst (serve calculator_env []
          \<lparr>req_method = ''POST'',
           req_json = Inr \<lparr>conversationId = None, message = ''What is 2 + 2?''\<rparr>\<rparr>) =
     \<lparr>status = 500, body = Error_Response ''Unterminated string in JSON at position 24 (line 1 column 25)''\<rparr>"
  by code_simp




text \<open>
  C9, as the code has it. The handler does not inspect the history it loads. For a turn
  of an existing conversation, whatever list the store returns is handed to \<open>runAgent\<close>:
  the next event is the completion call on the system message followed by that list,
  and with a credential the request carrying it is sent. The turn fails at load time
  only when the store reports an error.
\<close>

theorem history_not_validated:
  assumes "req_json req = Inr rq" and "createClient env = None"
    and "conversationId rq = Some cid" and "cid \<noteq> []"
    and "insert_message env tr (user_row cid (message rq)) = None"
  shows "(select_history env (tr @ [Ev_Insert_Message (user_row cid (message rq))]) cid = Inr history \<longrightarrow>
      (\<exists>evs. snd (turn env tr req) =
         tr @ [Ev_Insert_Message (user_row cid (message rq)), Ev_Select_History cid,
               Ev_Complete (systemMessage # history) True] @ evs \<and>
         (\<not> falsy (OPENAI_API_KEY env) \<longrightarrow>
            (\<exists>evs'. evs = Ev_OpenAI_Fetch
               \<lparr>request_messages = map request_message (systemMessage # history),
                request_tools = True\<rparr> # evs')))) \<and>
    (select_history env (tr @ [Ev_Insert_Message (user_row cid (message rq))]) cid = Inl e \<longrightarrow>
      turn env tr req =
        (Inl e, tr @ [Ev_Insert_Message (user_row cid (message rq)), Ev_Select_History cid]))"
proof (intro conjI impI)
  assume "select_history env (tr @ [Ev_Insert_Message (user_row cid (message rq))]) cid = Inl e"
  with assms show "turn env tr req =
        (Inl e, tr @ [Ev_Insert_Message (user_row cid (message rq)), Ev_Select_History cid])"
    by (simp add: turn_def Let_def)
next
  assume h: "select_history env (tr @ [Ev_Insert_Message (user_row cid (message rq))]) cid = Inr history"
  let ?tr3 = "tr @ [Ev_Insert_Message (user_row cid (message rq)), Ev_Select_History cid]"
  let ?body = "\<lparr>request_messages = map request_message (systemMessage # history), request_tools = True\<rparr>"
  have t: "turn env tr req =
      (case runAgent env ?tr3 history of
         (Inl error, tr4) \<Rightarrow> (Inl error, tr4)
       | (Inr agentMessages, tr4) \<Rightarrow>
           (Inr \<lparr>status = 200, body = Turn_Response cid (response_text agentMessages)\<rparr>,
            save_all tr4 cid agentMessages))"
    using assms h by (simp add: turn_def Let_def)
  obtain r tr4 where run: "runAgent env ?tr3 history = (r, tr4)"
    by (cases "runAgent env ?tr3 history")
  from runAgent_first_call [of env ?tr3 history] run
  obtain evs4 where evs4: "tr4 = snd (callOpenAI env ?tr3 (systemMessage # history) True) @ evs4"
    by auto
  have "\<exists>evs5. snd (turn env tr req) = tr4 @ evs5"
    using t run by (cases r) (simp_all add: save_all_events)
  then obtain evs5 where evs5: "snd (turn env tr req) = tr4 @ evs5" by blast
  show "\<exists>evs. snd (turn env tr req) =
         tr @ [Ev_Insert_Message (user_row cid (message rq)), Ev_Select_History cid,
               Ev_Complete (systemMessage # history) True] @ evs \<and>
         (\<not> falsy (OPENAI_API_KEY env) \<longrightarrow> (\<exists>evs'. evs = Ev_OpenAI_Fetch ?body # evs'))"
  proof (cases "falsy (OPENAI_API_KEY env)")
    case True
    then have "snd (callOpenAI env ?tr3 (systemMessage # history) True) =
        ?tr3 @ [Ev_Complete (systemMessage # history) True]"
      by (simp add: callOpenAI_def)
    with evs4 evs5 True show ?thesis by simp
  next
    case False
    then have "snd (callOpenAI env ?tr3 (systemMessage # history) True) =
        ?tr3 @ [Ev_Complete (systemMessage # history) True, Ev_OpenAI_Fetch ?body]"
      by (simp add: callOpenAI_def Let_def split: fetched.splits sum.splits list.splits)
    with evs4 evs5 False show ?thesis by simp
  qed
qed

theorem history_not_validated_witness:
  "has_orphan [] (stored_messages orphan_trace ''conv-1'' @ [user_message ''Hello'']) \<and>
   (\<exists>evs. snd (turn plain_env orphan_trace next_turn) =
      orphan_trace @ [Ev_Insert_Message (user_row ''conv-1'' ''Hello''), Ev_Select_History ''conv-1'',
        Ev_Complete (systemMessage # stored_messages orphan_trace ''conv-1'' @ [user_message ''Hello'']) True,
        Ev_OpenAI_Fetch
          \<lparr>request_messages = map request_message
             (systemMessage # stored_messages orphan_trace ''conv-1'' @ [user_message ''Hello'']),
           request_tools = True\<rparr>] @ evs)"
proof -
  let ?rq = "\<lparr>conversationId = Some ''conv-1'', message = ''Hello''\<rparr>"
  let ?h = "stored_messages orphan_trace ''conv-1'' @ [user_message ''Hello'']"
  have o: "has_orphan [] ?h" by code_simp
  have 1: "req_json next_turn = Inr ?rq" by code_simp
  have 2: "createClient plain_env = None" by code_simp
  have 3: "conversationId ?rq = Some ''conv-1''" by simp
  have 4: "''conv-1'' \<noteq> []" by simp
  have 5: "insert_message plain_env orphan_trace (user_row ''conv-1'' (message ?rq)) = None"
    by code_simp
  have 6: "select_history plain_env
      (orphan_trace @ [Ev_Insert_Message (user_row ''conv-1'' (message ?rq))]) ''conv-1'' = Inr ?h"
    by code_simp
  have 7: "\<not> falsy (OPENAI_API_KEY plain_env)" by code_simp
  from history_not_validated [OF 1 2 3 4 5, of ?h] 6 7 o
  show ?thesis by auto
qed

text \<open>
  C9 as stated fails: the stored history of \<open>conv-1\<close> holds an orphaned tool message, the
  turn succeeds with status 200, and the request sent to the provider carries the
  orphan.
\<close>

theorem orphan_sent_to_provider:
  "has_orphan [] (stored_messages orphan_trace ''conv-1'' @ [user_message ''Hello'']) \<and>
   fst (serve plain_env orphan_trace next_turn) =
     \<lparr>status = 200, body = Turn_Response ''conv-1'' ''Hi there!''\<rparr> \<and>
   Ev_OpenAI_Fetch
     \<lparr>request_messages =
        systemMessage # stored_messages orphan_trace ''conv-1'' @ [user_message ''Hello''],
      request_tools = True\<rparr> \<in> set (snd (serve plain_env orphan_trace next_turn))"
  by code_simp




end
